theory Spec2Isabelle
  imports Complex_Main "HOL-Library.AList" "HOL-Library.Product_Lexorder"
begin

section \<open>Price alerts (app/db.py, app/scheduler.py)\<close>

text \<open>
  The ORM model \<open>PriceAlert\<close> of app/db.py. The primary key \<open>id\<close> is called
  \<open>alert_id\<close> here (\<open>id\<close> is the identity function of HOL). Python floats are modelled by
  reals: the evaluator only compares them. Timestamps are abstract clock readings.
\<close>

datatype AlertType = ABOVE | BELOW

record PriceAlert =
  alert_id :: nat
  user_id :: int
  asset :: string
  target_price :: real
  alert_type :: AlertType
  is_active :: bool
  created_at :: nat
  triggered_at :: "nat option"
  is_one_time :: bool

text \<open>
  One call of \<open>bot.send_message\<close> made by the evaluator, as it is observed from outside:
  the alert it was made for, the chat it went to, the price and the frequency (one-time or
  recurring) its text reported, and whether the call returned (\<open>delivered\<close>) or raised.
\<close>

record notification =
  note_alert :: nat
  note_chat :: int
  note_price :: real
  note_one_time :: bool
  delivered :: bool

text \<open>
  \<open>DB.get_distinct_alert_assets\<close>: \<open>select distinct asset where is_active\<close>, and
  \<open>DB.get_all_active_price_alerts\<close>.
\<close>

definition get_distinct_alert_assets :: "PriceAlert list \<Rightarrow> string list" where
  "get_distinct_alert_assets db = remdups (map asset (filter is_active db))"

definition get_all_active_price_alerts :: "PriceAlert list \<Rightarrow> PriceAlert list" where
  "get_all_active_price_alerts db = filter is_active db"

text \<open>
  The dict comprehension
  \<^verbatim>\<open>{asset: price for asset, price in zip(active_assets, price_results) if isinstance(price, float)}\<close>.
  A result of \<open>fetch_current_price\<close> is \<open>Some p\<close> for a float and \<open>None\<close> for anything else
  (\<open>None\<close>, or an exception object returned by \<open>gather\<close>). The dict is an association list
  whose later bindings replace earlier ones.
\<close>

definition asset_prices_of :: "string list \<Rightarrow> real option list \<Rightarrow> (string \<times> real) list" where
  "asset_prices_of active_assets price_results =
     foldl (\<lambda>d (a, price). case price of Some p \<Rightarrow> AList.update a p d | None \<Rightarrow> d)
       [] (zip active_assets price_results)"

text \<open>The trigger condition of lines 199-200.\<close>

definition triggered :: "PriceAlert \<Rightarrow> real \<Rightarrow> bool" where
  "triggered alert current_price =
     ((alert_type alert = ABOVE \<and> current_price \<ge> target_price alert) \<or>
      (alert_type alert = BELOW \<and> current_price \<le> target_price alert))"

text \<open>
  The \<open>for alert in active_alerts\<close> loop: \<open>alert_step\<close> is its body, \<open>sweep\<close> the loop.
  \<open>sends\<close> is the transport: \<open>sends k\<close> tells whether
  the \<open>k\<close>-th call of \<open>bot.send_message\<close> of this run returns (\<open>True\<close>) or raises
  (\<open>False\<close>). The loop state is the number of calls made so far, the list
  \<open>triggered_one_time_ids\<close>, and the notifications attempted so far. The append to
  \<open>triggered_one_time_ids\<close> stands after the send inside the \<open>try\<close>, so it is skipped when the
  send raises.
\<close>

record sweep_state =
  calls :: nat
  triggered_one_time_ids :: "nat list"
  attempts :: "notification list"

definition alert_step ::
  "(string \<times> real) list \<Rightarrow> (nat \<Rightarrow> bool) \<Rightarrow> PriceAlert \<Rightarrow> sweep_state \<Rightarrow> sweep_state" where
  "alert_step asset_prices sends alert st =
     (case map_of asset_prices (asset alert) of
        None \<Rightarrow> st
      | Some current_price \<Rightarrow>
          if triggered alert current_price then
            (if sends (calls st) then
               \<lparr>calls = Suc (calls st),
                triggered_one_time_ids =
                  (if is_one_time alert then triggered_one_time_ids st @ [alert_id alert]
                   else triggered_one_time_ids st),
                attempts = attempts st @
                  [\<lparr>note_alert = alert_id alert, note_chat = user_id alert,
                    note_price = current_price, note_one_time = is_one_time alert,
                    delivered = True\<rparr>]\<rparr>
             else
               \<lparr>calls = Suc (calls st),
                triggered_one_time_ids = triggered_one_time_ids st,
                attempts = attempts st @
                  [\<lparr>note_alert = alert_id alert, note_chat = user_id alert,
                    note_price = current_price, note_one_time = is_one_time alert,
                    delivered = False\<rparr>]\<rparr>)
          else st)"

fun sweep ::
  "(string \<times> real) list \<Rightarrow> (nat \<Rightarrow> bool) \<Rightarrow> PriceAlert list \<Rightarrow> sweep_state \<Rightarrow> sweep_state" where
  "sweep asset_prices sends [] st = st"
| "sweep asset_prices sends (alert # rest) st =
     sweep asset_prices sends rest (alert_step asset_prices sends alert st)"

text \<open>
  The batched statement
  \<^verbatim>\<open>update(PriceAlert).where(PriceAlert.id.in_(ids)).values(is_active=False, triggered_at=now)\<close>.
\<close>

definition deactivate_batch :: "nat list \<Rightarrow> nat \<Rightarrow> PriceAlert list \<Rightarrow> PriceAlert list" where
  "deactivate_batch ids now db =
     map (\<lambda>r. if alert_id r \<in> set ids then r\<lparr>is_active := False, triggered_at := Some now\<rparr> else r) db"

text \<open>
  \<open>check_price_alerts_job\<close>: one tick. \<open>fetch\<close> is what \<open>fetch_current_price\<close> yields for
  each asset in this tick, \<open>sends\<close> the transport, \<open>now\<close> the clock. The result is the table
  after the tick and the notifications attempted.
\<close>

definition check_price_alerts_job ::
  "(string \<Rightarrow> real option) \<Rightarrow> (nat \<Rightarrow> bool) \<Rightarrow> nat \<Rightarrow> PriceAlert list
     \<Rightarrow> PriceAlert list \<times> notification list" where
  "check_price_alerts_job fetch sends now db =
     (let active_assets = get_distinct_alert_assets db in
      if active_assets = [] then (db, [])
      else
        let price_results = map fetch active_assets;
            asset_prices = asset_prices_of active_assets price_results
        in if asset_prices = [] then (db, [])
           else
             let active_alerts = get_all_active_price_alerts db;
                 st = sweep asset_prices sends active_alerts
                        \<lparr>calls = 0, triggered_one_time_ids = [], attempts = []\<rparr>
             in if triggered_one_time_ids st \<noteq> []
                then (deactivate_batch (triggered_one_time_ids st) now db, attempts st)
                else (db, attempts st))"

text \<open>
  Whether an alert fires against the prices of a tick: its asset has a price and the trigger
  condition holds for it. \<open>fires\<close> reads the dict built in the tick, \<open>fires_on\<close> the fetch
  results themselves.
\<close>

definition fires :: "(string \<times> real) list \<Rightarrow> PriceAlert \<Rightarrow> bool" where
  "fires asset_prices alert =
     (case map_of asset_prices (asset alert) of None \<Rightarrow> False | Some p \<Rightarrow> triggered alert p)"

definition fires_on :: "(string \<Rightarrow> real option) \<Rightarrow> PriceAlert \<Rightarrow> bool" where
  "fires_on fetch alert =
     (case fetch (asset alert) of None \<Rightarrow> False | Some p \<Rightarrow> triggered alert p)"

subsection \<open>The other writers of the table (app/db.py)\<close>

text \<open>
  \<open>DB.add_price_alert\<close> inserts a row with the column defaults (\<open>is_active = True\<close>, no
  \<open>triggered_at\<close>). The key the database issues is a parameter; a key that is already in the
  table violates the primary key, the insert fails and the table is unchanged.
  \<open>DB.deactivate_price_alert\<close> and \<open>DB.delete_price_alert\<close> are single statements.
\<close>

definition add_price_alert ::
  "nat \<Rightarrow> nat \<Rightarrow> int \<Rightarrow> string \<Rightarrow> real \<Rightarrow> AlertType \<Rightarrow> bool \<Rightarrow> PriceAlert list \<Rightarrow> PriceAlert list" where
  "add_price_alert new_id now uid a target ty one_time db =
     (if new_id \<in> set (map alert_id db) then db
      else db @ [\<lparr>alert_id = new_id, user_id = uid, asset = a, target_price = target,
        alert_type = ty, is_active = True, created_at = now, triggered_at = None,
        is_one_time = one_time\<rparr>])"

definition deactivate_price_alert :: "nat \<Rightarrow> nat \<Rightarrow> PriceAlert list \<Rightarrow> PriceAlert list" where
  "deactivate_price_alert i now db =
     map (\<lambda>r. if alert_id r = i then r\<lparr>is_active := False, triggered_at := Some now\<rparr> else r) db"

definition delete_price_alert :: "nat \<Rightarrow> PriceAlert list \<Rightarrow> PriceAlert list" where
  "delete_price_alert i db = filter (\<lambda>r. alert_id r \<noteq> i) db"

text \<open>
  Everything in the repository that writes the table: a tick of the evaluator and the three
  statements above. \<open>run\<close> applies a sequence of them and collects the notifications the
  ticks attempt.
\<close>

datatype operation =
    Tick "string \<Rightarrow> real option" "nat \<Rightarrow> bool" nat
  | AddAlert nat nat int string real AlertType bool
  | Deactivate nat nat
  | Delete nat

fun apply_operation :: "operation \<Rightarrow> PriceAlert list \<Rightarrow> PriceAlert list \<times> notification list" where
  "apply_operation (Tick fetch sends now) db = check_price_alerts_job fetch sends now db"
| "apply_operation (AddAlert new_id now uid a target ty one_time) db =
     (add_price_alert new_id now uid a target ty one_time db, [])"
| "apply_operation (Deactivate i now) db = (deactivate_price_alert i now db, [])"
| "apply_operation (Delete i) db = (delete_price_alert i db, [])"

fun run :: "operation list \<Rightarrow> PriceAlert list \<Rightarrow> PriceAlert list \<times> notification list" where
  "run [] db = (db, [])"
| "run (x # ops) db =
     (case apply_operation x db of
        (db1, ns1) \<Rightarrow> (case run ops db1 of (db2, ns2) \<Rightarrow> (db2, ns1 @ ns2)))"

fun issues :: "nat \<Rightarrow> operation \<Rightarrow> bool" where
  "issues i (AddAlert new_id now uid a target ty one_time) = (new_id = i)"
| "issues i _ = False"

text \<open>Every attempted notification belongs to an alert of the sweep whose condition held.\<close>

definition note_of :: "(string \<times> real) list \<Rightarrow> PriceAlert list \<Rightarrow> notification \<Rightarrow> bool" where
  "note_of ap xs n =
     (\<exists>a \<in> set xs. note_alert n = alert_id a \<and> note_chat n = user_id a \<and>
        note_one_time n = is_one_time a \<and> map_of ap (asset a) = Some (note_price n) \<and>
        triggered a (note_price n))"

text \<open>
  A key all of whose rows are inactive: no statement of the repository makes such a row
  active, and a tick attempts no notification for it.
\<close>

definition inactive :: "nat \<Rightarrow> PriceAlert list \<Rightarrow> bool" where
  "inactive i db = list_all (\<lambda>r. alert_id r = i \<longrightarrow> \<not> is_active r) db"

section \<open>Fan-out of one message (app/scheduler.py, app/handlers/admin.py)\<close>

text \<open>
  The three fan-outs build one \<open>bot.send_message\<close> task per recipient and await
  \<^verbatim>\<open>asyncio.gather(*tasks, return_exceptions=True)\<close>: every task runs, and the result list
  holds, per recipient and in the order of the recipients, the returned message or the
  exception object. A result is \<open>True\<close> for a returned message and \<open>False\<close> for an
  exception object. \<open>sends\<close> is the transport as before; \<open>k\<close> is the number of calls made
  earlier in the run.
\<close>

definition gather_send_message :: "(nat \<Rightarrow> bool) \<Rightarrow> nat \<Rightarrow> int list \<Rightarrow> (int \<times> bool) list" where
  "gather_send_message sends k chat_ids =
     map (\<lambda>(i, chat). (chat, sends (k + i))) (enumerate 0 chat_ids)"

text \<open>
  \<open>send_broadcast_confirm_handler\<close> (admin.py 324-334): the counting loop over the results.
  The report holds the two counters and the chats a send was attempted for.
\<close>

record broadcast_report =
  sent :: nat
  failed :: nat
  broadcast_attempted :: "int list"

definition send_broadcast_confirm_handler :: "(nat \<Rightarrow> bool) \<Rightarrow> int list \<Rightarrow> broadcast_report" where
  "send_broadcast_confirm_handler sends user_ids =
     (let results = gather_send_message sends 0 user_ids;
          (sent, failed) =
             foldl (\<lambda>(sent, failed) result.
                      if \<not> snd result then (sent, failed + 1) else (sent + 1, failed))
               (0, 0) results
      in \<lparr>sent = sent, failed = failed, broadcast_attempted = map fst results\<rparr>)"

text \<open>
  \<open>send_daily_economic_calendar_job\<close> from line 253 on: no users, nothing is sent; otherwise
  the fan-out, the count \<open>sent_count\<close>, and, when it is positive, one report to every admin.
  The admin sends are awaited one after the other outside any \<open>try\<close>: the first that raises
  ends the job with that exception (\<open>job_raised\<close>).
\<close>

record calendar_report =
  sent_count :: nat
  calendar_attempted :: "int list"
  admins_told :: "int list"
  job_raised :: bool

fun tell_admins :: "(nat \<Rightarrow> bool) \<Rightarrow> nat \<Rightarrow> int list \<Rightarrow> int list \<times> bool" where
  "tell_admins sends k [] = ([], False)"
| "tell_admins sends k (admin_id # rest) =
     (if sends k then
        (case tell_admins sends (Suc k) rest of (told, raised) \<Rightarrow> (admin_id # told, raised))
      else ([], True))"

definition send_daily_economic_calendar_job ::
  "(nat \<Rightarrow> bool) \<Rightarrow> int list \<Rightarrow> int list \<Rightarrow> calendar_report option" where
  "send_daily_economic_calendar_job sends all_users admin_ids =
     (if all_users = [] then None
      else
        let results = gather_send_message sends 0 all_users;
            sent_count = length (filter (\<lambda>r. snd r) results)
        in if sent_count > 0 then
             (case tell_admins sends (length all_users) admin_ids of
                (told, raised) \<Rightarrow>
                  Some \<lparr>sent_count = sent_count, calendar_attempted = map fst results,
                    admins_told = told, job_raised = raised\<rparr>)
           else Some \<lparr>sent_count = sent_count, calendar_attempted = map fst results,
                  admins_told = [], job_raised = False\<rparr>)"

text \<open>
  \<open>scheduled_analysis_job\<close> (scheduler.py 123-153). \<open>api_enabled\<close> stands for
  \<open>API_ENABLED and gemini_model\<close>; \<open>analysis_ok\<close> tells whether the candles and the provider's
  analysis came back or one of them raised. When they raise, the \<open>except\<close> branch sends one
  message to every admin, each in its own \<open>try\<close>. The fan-out to the VIP users keeps no
  count; it logs one warning for each recipient whose result is an exception.
\<close>

record analysis_report =
  analysis_attempted :: "int list"
  analysis_warned :: "int list"
  admins_alerted :: "int list"

definition scheduled_analysis_job ::
  "(nat \<Rightarrow> bool) \<Rightarrow> bool \<Rightarrow> bool \<Rightarrow> int list \<Rightarrow> int list \<Rightarrow> analysis_report" where
  "scheduled_analysis_job sends api_enabled analysis_ok vip_users admin_ids =
     (if \<not> api_enabled then
        \<lparr>analysis_attempted = [], analysis_warned = [], admins_alerted = []\<rparr>
      else if \<not> analysis_ok then
        \<lparr>analysis_attempted = [], analysis_warned = [],
         admins_alerted = map fst (filter (\<lambda>r. snd r) (gather_send_message sends 0 admin_ids))\<rparr>
      else if vip_users = [] then
        \<lparr>analysis_attempted = [], analysis_warned = [], admins_alerted = []\<rparr>
      else
        let results = gather_send_message sends 0 vip_users
        in \<lparr>analysis_attempted = map fst results,
            analysis_warned = map fst (filter (\<lambda>r. \<not> snd r) results),
            admins_alerted = []\<rparr>)"

text \<open>The number of recipients whose send raises, out of the first \<open>n\<close> calls.\<close>

definition failures :: "(nat \<Rightarrow> bool) \<Rightarrow> nat \<Rightarrow> nat" where
  "failures sends n = length (filter (\<lambda>i. \<not> sends i) [0..<n])"

section \<open>The add-alert entry point (app/handlers/user.py)\<close>

text \<open>
  The ORM model \<open>User\<close> (its key \<open>id\<close> is \<open>uid\<close> here), the states of app/states.py, and what
  a handler can see and change: the two tables, the conversation state of each user, and the
  replies sent so far.
\<close>

record User =
  uid :: int
  username :: "string option"
  first_name :: string
  subscription_tier :: string
  subscription_expiry :: "nat option"
  join_date :: nat
  is_vip :: bool
  credits :: int

datatype FSM =
    add_task_asset | add_task_hour | add_task_minute
  | edit_task_select | edit_task_hour | edit_task_minute
  | broadcast_message | broadcast_confirm
  | custom_asset
  | admin_search_user
  | set_alert_asset | set_alert_price | set_alert_type | set_alert_frequency
  | delete_alert_confirm

datatype reply = ShowAlert string | EditText string | Answered

datatype py_error = AttributeError | IntegrityError

record world =
  users :: "User list"
  price_alerts :: "PriceAlert list"
  fsm :: "int \<Rightarrow> FSM option"
  replies :: "reply list"

definition get_user :: "User list \<Rightarrow> int \<Rightarrow> User option" where
  "get_user us i = find (\<lambda>u. uid u = i) us"

text \<open>\<open>DB.get_user_price_alerts\<close>: the user's rows, newest first.\<close>

definition get_user_price_alerts :: "PriceAlert list \<Rightarrow> int \<Rightarrow> bool \<Rightarrow> PriceAlert list" where
  "get_user_price_alerts db i active_only =
     rev (sort_key created_at
       (filter (\<lambda>r. user_id r = i \<and> (if active_only then is_active r else True)) db))"

definition limit_text :: string where
  "limit_text = ''You have reached the maximum of 3 active alerts for the free plan. Please upgrade to add more.''"

definition choose_text :: string where
  "choose_text = ''Choose the asset you want to set an alert for:''"

text \<open>
  \<open>start_add_alert_handler\<close>. \<open>DB.get_user\<close> yields \<open>None\<close> for an unknown user, and reading
  \<open>user.subscription_tier\<close> then raises.
\<close>

definition start_add_alert_handler :: "world \<Rightarrow> int \<Rightarrow> py_error + world" where
  "start_add_alert_handler w from_user =
     (case get_user (users w) from_user of
        None \<Rightarrow> Inl AttributeError
      | Some user \<Rightarrow>
          if subscription_tier user = ''free'' \<and>
             length (get_user_price_alerts (price_alerts w) (uid user) True) \<ge> 3
          then Inr (w\<lparr>replies := replies w @ [ShowAlert limit_text]\<rparr>)
          else Inr (w\<lparr>fsm := (fsm w)(from_user := Some set_alert_asset),
                 replies := replies w @ [EditText choose_text, Answered]\<rparr>))"

section \<open>The scheduler (app/scheduler.py, app/handlers/admin.py, app/main.py)\<close>

text \<open>
  The ORM model \<open>ScheduledTask\<close> of app/db.py (its key \<open>id\<close> is \<open>task_pk\<close>, its asset
  \<open>task_asset\<close>).
\<close>

record ScheduledTask =
  task_pk :: nat
  job_id :: string
  task_asset :: string
  hour :: int
  minute :: int
  timezone :: string

text \<open>
  The part of APScheduler the repository uses. A job has an id, the function it calls with
  its arguments, and a trigger. \<open>add_job\<close> takes the trigger's arguments; a cron trigger
  that is given no \<open>timezone\<close> takes the scheduler's own, and \<open>AsyncIOScheduler()\<close>, built in
  main.py without arguments, has the timezone of the host. With \<open>replace_existing=True\<close> a
  job whose id is already in the store replaces the stored one, otherwise it is added.
\<close>

datatype job_func =
    analysis_call string
  | price_alerts_call
  | calendar_call

datatype trigger_args = cron_args int int "string option" | interval_args nat

datatype trigger = cron int int string | interval nat

record Job =
  job_key :: string
  func :: job_func
  trigger :: trigger

record AsyncIOScheduler =
  scheduler_timezone :: string
  jobs :: "Job list"

definition create_trigger :: "AsyncIOScheduler \<Rightarrow> trigger_args \<Rightarrow> trigger" where
  "create_trigger sched args =
     (case args of
        cron_args h m tz \<Rightarrow>
          cron h m (case tz of None \<Rightarrow> scheduler_timezone sched | Some z \<Rightarrow> z)
      | interval_args n \<Rightarrow> interval n)"

definition get_job :: "AsyncIOScheduler \<Rightarrow> string \<Rightarrow> Job option" where
  "get_job sched key = find (\<lambda>j. job_key j = key) (jobs sched)"

definition add_job ::
  "job_func \<Rightarrow> trigger_args \<Rightarrow> string \<Rightarrow> AsyncIOScheduler \<Rightarrow> AsyncIOScheduler" where
  "add_job f args key sched =
     (let job = \<lparr>job_key = key, func = f, trigger = create_trigger sched args\<rparr>
      in if get_job sched key \<noteq> None
         then sched\<lparr>jobs := map (\<lambda>j. if job_key j = key then job else j) (jobs sched)\<rparr>
         else sched\<lparr>jobs := jobs sched @ [job]\<rparr>)"

definition remove_job :: "string \<Rightarrow> AsyncIOScheduler \<Rightarrow> AsyncIOScheduler" where
  "remove_job key sched = sched\<lparr>jobs := filter (\<lambda>j. job_key j \<noteq> key) (jobs sched)\<rparr>"

text \<open>
  \<open>setup_scheduler\<close>: one cron job per persisted task, registered with the task's hour,
  minute and job id and with no timezone; then the alert checker and the daily calendar, the
  latter with \<open>timezone('Asia/Baghdad')\<close>.
\<close>

definition setup_scheduler :: "ScheduledTask list \<Rightarrow> AsyncIOScheduler \<Rightarrow> AsyncIOScheduler" where
  "setup_scheduler tasks sched =
     add_job calendar_call (cron_args 2 0 (Some ''Asia/Baghdad'')) ''daily_calendar_sender''
       (add_job price_alerts_call (interval_args 1) ''price_alert_checker''
          (foldl (\<lambda>s task. add_job (analysis_call (task_asset task))
                     (cron_args (hour task) (minute task) None) (job_id task) s)
             sched tasks))"

text \<open>
  Python's \<open>str\<close> of an integer, \<open>str.isdigit\<close> and \<open>int\<close> on a string of ASCII digits, as the
  f-string \<^verbatim>\<open>f"task_{asset}_{hour}_{minute}"\<close> and the check of the minute use them.
\<close>

definition digit_char :: "nat \<Rightarrow> char" where
  "digit_char d = ''0123456789'' ! d"

fun str_nat :: "nat \<Rightarrow> string" where
  "str_nat n = (if n < 10 then [digit_char n] else str_nat (n div 10) @ [digit_char (n mod 10)])"

declare str_nat.simps [simp del]

definition str_int :: "int \<Rightarrow> string" where
  "str_int i = (if i < 0 then CHR ''-'' # str_nat (nat (- i)) else str_nat (nat i))"

definition isdigit :: "string \<Rightarrow> bool" where
  "isdigit s = (s \<noteq> [] \<and> list_all (\<lambda>c. c \<in> set ''0123456789'') s)"

definition digit_value :: "char \<Rightarrow> nat" where
  "digit_value c = of_char c - 48"

definition int_of_text :: "string \<Rightarrow> int" where
  "int_of_text s = int (foldl (\<lambda>n c. 10 * n + digit_value c) 0 s)"

definition task_job_id :: "string \<Rightarrow> int \<Rightarrow> int \<Rightarrow> string" where
  "task_job_id a h m = ''task_'' @ a @ ''_'' @ str_int h @ ''_'' @ str_int m"

text \<open>
  \<open>DB.add_task\<close>: the column \<open>job_id\<close> is unique, so a second row with the same job id is
  refused; \<open>timezone\<close> takes its default.
\<close>

definition add_task ::
  "string \<Rightarrow> string \<Rightarrow> int \<Rightarrow> int \<Rightarrow> ScheduledTask list \<Rightarrow> py_error + ScheduledTask list" where
  "add_task key a h m tasks =
     (if key \<in> set (map job_id tasks) then Inl IntegrityError
      else Inr (tasks @ [\<lparr>task_pk = Suc (fold max (map task_pk tasks) 0), job_id = key,
             task_asset = a, hour = h, minute = m, timezone = ''Asia/Baghdad''\<rparr>]))"

text \<open>
  \<open>add_task_minute_handler\<close>: \<open>text\<close> is the message, \<open>a\<close> and \<open>h\<close> the asset and hour kept
  in the conversation data by the two handlers before it.
\<close>

record admin_world =
  tasks :: "ScheduledTask list"
  scheduler :: AsyncIOScheduler

datatype task_reply = InvalidMinute | TaskExists | TaskScheduled string int int

definition add_task_minute_handler ::
  "string \<Rightarrow> string \<Rightarrow> int \<Rightarrow> admin_world \<Rightarrow> py_error + (admin_world \<times> task_reply)" where
  "add_task_minute_handler text a h w =
     (if \<not> isdigit text \<or> \<not> (0 \<le> int_of_text text \<and> int_of_text text \<le> 59)
      then Inr (w, InvalidMinute)
      else
        let m = int_of_text text; key = task_job_id a h m
        in if get_job (scheduler w) key \<noteq> None
           then Inr (w, TaskExists)
           else (case add_task key a h m (tasks w) of
                   Inl e \<Rightarrow> Inl e
                 | Inr tasks' \<Rightarrow>
                     Inr (\<lparr>tasks = tasks',
                           scheduler = add_job (analysis_call a) (cron_args h m None) key
                             (scheduler w)\<rparr>,
                          TaskScheduled a h m)))"

text \<open>
  The reference task: XAUUSD at 02:00, stored with the timezone Asia/Baghdad, and a scheduler
  on a host whose timezone is UTC.
\<close>

definition baghdad_task :: ScheduledTask where
  "baghdad_task = \<lparr>task_pk = 1, job_id = ''task_XAUUSD_2_0'', task_asset = ''XAUUSD'',
     hour = 2, minute = 0, timezone = ''Asia/Baghdad''\<rparr>"

definition utc_scheduler :: AsyncIOScheduler where
  "utc_scheduler = \<lparr>scheduler_timezone = ''UTC'', jobs = []\<rparr>"

section \<open>The economic calendar (app/scheduler.py, MyfxbookCalendarScraper)\<close>

subsection \<open>Strings\<close>

text \<open>
  \<open>str.strip\<close>, \<open>str.upper\<close>, \<open>str.lower\<close> and \<open>str.split\<close> on ASCII text. The whitespace of
  \<open>str.strip\<close> and of the regular expression \<open>\s\<close> is the same set of characters.
\<close>

definition isspace :: "char \<Rightarrow> bool" where
  "isspace c = ((of_char c :: nat) \<in> set [9, 10, 11, 12, 13, 28, 29, 30, 31, 32])"

definition strip :: "string \<Rightarrow> string" where
  "strip s = rev (dropWhile isspace (rev (dropWhile isspace s)))"

definition upper :: "string \<Rightarrow> string" where
  "upper s = map (\<lambda>c. if 97 \<le> (of_char c :: nat) \<and> (of_char c :: nat) \<le> 122
                        then char_of (of_char c - (32 :: nat)) else c) s"

definition lower :: "string \<Rightarrow> string" where
  "lower s = map (\<lambda>c. if 65 \<le> (of_char c :: nat) \<and> (of_char c :: nat) \<le> 90
                        then char_of (of_char c + (32 :: nat)) else c) s"

fun split :: "char \<Rightarrow> string \<Rightarrow> string list" where
  "split sep [] = [[]]"
| "split sep (c # cs) =
     (if c = sep then [] # split sep cs
      else (case split sep cs of [] \<Rightarrow> [[c]] | p # ps \<Rightarrow> (c # p) # ps))"

subsection \<open>The three formats of \<open>datetime.strptime\<close> the scraper uses\<close>

text \<open>
  \<open>strptime\<close> turns a format into a regular expression, matches it at the start of the text
  (letters without regard to case), and raises \<open>ValueError\<close> when nothing matches or when text
  remains after the match. Each directive is a group of alternatives tried in the order
  written, and whitespace in the format is \<open>\s+\<close>. A group is modelled by the list of its
  possible matches, each with the value read and the remaining text, in the order the
  matcher tries them; the match of the whole expression is the first of the combined list.
  \<open>None\<close> stands for \<open>ValueError\<close>. Month names and AM/PM are those of the C locale.
\<close>

definition in_range :: "char \<Rightarrow> char \<Rightarrow> char \<Rightarrow> bool" where
  "in_range lo hi c = ((of_char lo :: nat) \<le> of_char c \<and> (of_char c :: nat) \<le> of_char hi)"

fun one :: "(char \<Rightarrow> bool) \<Rightarrow> string \<Rightarrow> (nat \<times> string) list" where
  "one P (a # r) = (if P a then [(digit_value a, r)] else [])"
| "one P [] = []"

fun two :: "(char \<Rightarrow> bool) \<Rightarrow> (char \<Rightarrow> bool) \<Rightarrow> string \<Rightarrow> (nat \<times> string) list" where
  "two P Q (a # b # r) = (if P a \<and> Q b then [(10 * digit_value a + digit_value b, r)] else [])"
| "two P Q [a] = []"
| "two P Q [] = []"

fun spaced :: "(char \<Rightarrow> bool) \<Rightarrow> string \<Rightarrow> (nat \<times> string) list" where
  "spaced P (a # b # r) = (if a = CHR '' '' \<and> P b then [(digit_value b, r)] else [])"
| "spaced P [a] = []"
| "spaced P [] = []"

text \<open>
  \<^verbatim>\<open>%d: 3[0-1]|[1-2]\d|0[1-9]|[1-9]| [1-9]\<close>, \<^verbatim>\<open>%H: 2[0-3]|[0-1]\d|\d\<close>,
  \<^verbatim>\<open>%I: 1[0-2]|0[1-9]|[1-9]\<close>, \<^verbatim>\<open>%M: [0-5]\d|\d\<close>, \<^verbatim>\<open>%Y: \d\d\d\d\<close>.
\<close>

definition re_d :: "string \<Rightarrow> (nat \<times> string) list" where
  "re_d s = two (in_range CHR ''3'' CHR ''3'') (in_range CHR ''0'' CHR ''1'') s @
            two (in_range CHR ''1'' CHR ''2'') (in_range CHR ''0'' CHR ''9'') s @
            two (in_range CHR ''0'' CHR ''0'') (in_range CHR ''1'' CHR ''9'') s @
            one (in_range CHR ''1'' CHR ''9'') s @
            spaced (in_range CHR ''1'' CHR ''9'') s"

definition re_H :: "string \<Rightarrow> (nat \<times> string) list" where
  "re_H s = two (in_range CHR ''2'' CHR ''2'') (in_range CHR ''0'' CHR ''3'') s @
            two (in_range CHR ''0'' CHR ''1'') (in_range CHR ''0'' CHR ''9'') s @
            one (in_range CHR ''0'' CHR ''9'') s"

definition re_I :: "string \<Rightarrow> (nat \<times> string) list" where
  "re_I s = two (in_range CHR ''1'' CHR ''1'') (in_range CHR ''0'' CHR ''2'') s @
            two (in_range CHR ''0'' CHR ''0'') (in_range CHR ''1'' CHR ''9'') s @
            one (in_range CHR ''1'' CHR ''9'') s"

definition re_M :: "string \<Rightarrow> (nat \<times> string) list" where
  "re_M s = two (in_range CHR ''0'' CHR ''5'') (in_range CHR ''0'' CHR ''9'') s @
            one (in_range CHR ''0'' CHR ''9'') s"

fun re_Y :: "string \<Rightarrow> (nat \<times> string) list" where
  "re_Y (a # b # c # d # r) =
     (if list_all (in_range CHR ''0'' CHR ''9'') [a, b, c, d]
      then [(1000 * digit_value a + 100 * digit_value b + 10 * digit_value c + digit_value d, r)]
      else [])"
| "re_Y [a, b, c] = []"
| "re_Y [a, b] = []"
| "re_Y [a] = []"
| "re_Y [] = []"

definition a_month :: "string list" where
  "a_month = [''jan'', ''feb'', ''mar'', ''apr'', ''may'', ''jun'',
              ''jul'', ''aug'', ''sep'', ''oct'', ''nov'', ''dec'']"

definition re_b :: "string \<Rightarrow> (nat \<times> string) list" where
  "re_b s =
     (if length s < 3 then []
      else (case map_of (zip a_month [1..<13]) (lower (take 3 s)) of
              None \<Rightarrow> []
            | Some month \<Rightarrow> [(month, drop 3 s)]))"

definition re_p :: "string \<Rightarrow> (bool \<times> string) list" where
  "re_p s =
     (if length s < 2 then []
      else if lower (take 2 s) = ''am'' then [(False, drop 2 s)]
      else if lower (take 2 s) = ''pm'' then [(True, drop 2 s)]
      else [])"

definition re_ws :: "string \<Rightarrow> string list" where
  "re_ws s = map (\<lambda>k. drop k s) (rev [1..<Suc (length (takeWhile isspace s))])"

definition lit :: "char \<Rightarrow> string \<Rightarrow> string list" where
  "lit c s = (case s of [] \<Rightarrow> [] | a # r \<Rightarrow> if a = c then [r] else [])"

definition first_match :: "('a \<times> string) list \<Rightarrow> 'a option" where
  "first_match ms =
     (case ms of [] \<Rightarrow> None | (v, rest) # _ \<Rightarrow> if rest = [] then Some v else None)"

text \<open>The calendar: leap years, the days of a month, the day after a date.\<close>

definition isleap :: "nat \<Rightarrow> bool" where
  "isleap y = (y mod 4 = 0 \<and> (y mod 100 \<noteq> 0 \<or> y mod 400 = 0))"

definition days_in_month :: "nat \<Rightarrow> nat \<Rightarrow> nat" where
  "days_in_month y m =
     (if m = 2 then (if isleap y then 29 else 28)
      else if m \<in> set [4, 6, 9, 11] then 30 else 31)"

definition next_day :: "nat \<times> nat \<times> nat \<Rightarrow> nat \<times> nat \<times> nat" where
  "next_day date =
     (case date of (y, m, d) \<Rightarrow>
        if d < days_in_month y m then (y, m, d + 1)
        else if m < 12 then (y, m + 1, 1) else (y + 1, 1, 1))"

text \<open>
  \<^verbatim>\<open>strptime(s, "%b %d %Y")\<close> yields year, month and day, and raises when the day is not a
  day of that month; \<^verbatim>\<open>strptime(s, "%I:%M%p")\<close> and \<^verbatim>\<open>strptime(s, "%H:%M")\<close> yield hour
  and minute, the first with 12 AM as hour 0 and 12 added to the hours 1 to 11 PM.
\<close>

definition strptime_b_d_Y :: "string \<Rightarrow> (nat \<times> nat \<times> nat) option" where
  "strptime_b_d_Y s =
     (case first_match
             [((y, m, d), r5). (m, r1) \<leftarrow> re_b s, r2 \<leftarrow> re_ws r1, (d, r3) \<leftarrow> re_d r2,
                 r4 \<leftarrow> re_ws r3, (y, r5) \<leftarrow> re_Y r4] of
        None \<Rightarrow> None
      | Some (y, m, d) \<Rightarrow> if 1 \<le> y \<and> d \<le> days_in_month y m then Some (y, m, d) else None)"

definition strptime_I_M_p :: "string \<Rightarrow> (nat \<times> nat) option" where
  "strptime_I_M_p s =
     (case first_match
             [((h, m, pm), r4). (h, r1) \<leftarrow> re_I s, r2 \<leftarrow> lit CHR '':'' r1, (m, r3) \<leftarrow> re_M r2,
                 (pm, r4) \<leftarrow> re_p r3] of
        None \<Rightarrow> None
      | Some (h, m, pm) \<Rightarrow>
          Some (if pm then (if h \<noteq> 12 then h + 12 else h) else (if h = 12 then 0 else h), m))"

definition strptime_H_M :: "string \<Rightarrow> (nat \<times> nat) option" where
  "strptime_H_M s =
     first_match [((h, m), r3). (h, r1) \<leftarrow> re_H s, r2 \<leftarrow> lit CHR '':'' r1, (m, r3) \<leftarrow> re_M r2]"

subsection \<open>\<open>_parse_event_datetime\<close> and \<open>_scrape_calendar\<close>\<close>

text \<open>
  A datetime in Baghdad wall-clock time. \<open>localize\<close> attaches the zone Asia/Baghdad, which has
  had the fixed offset +03:00 since 2008, so for the current year it never raises, and two
  equal wall-clock times are the same instant.
\<close>

record py_datetime =
  dt_year :: nat
  dt_month :: nat
  dt_day :: nat
  dt_hour :: nat
  dt_minute :: nat

definition event_time :: "string \<Rightarrow> (nat \<times> nat) option" where
  "event_time time_part =
     (case strptime_I_M_p (upper time_part) of
        Some t \<Rightarrow> Some t
      | None \<Rightarrow> strptime_H_M time_part)"

definition parse_event_datetime :: "nat \<Rightarrow> string \<Rightarrow> py_datetime option" where
  "parse_event_datetime current_year date_str =
     (let parts = split CHR '','' date_str;
          date_part = strip (hd parts);
          time_part = (if length parts > 1 then strip (parts ! 1) else [])
      in case strptime_b_d_Y (date_part @ '' '' @ str_nat current_year) of
           None \<Rightarrow> None
         | Some (y, m, d) \<Rightarrow>
             if time_part \<noteq> [] then
               (case event_time time_part of
                  None \<Rightarrow> None
                | Some (h, mi) \<Rightarrow>
                    Some \<lparr>dt_year = current_year, dt_month = m, dt_day = d, dt_hour = h,
                      dt_minute = mi\<rparr>)
             else Some \<lparr>dt_year = current_year, dt_month = m, dt_day = d, dt_hour = 0,
                    dt_minute = 0\<rparr>)"

text \<open>
  What the scraper reads from one \<open>tr.economicCalendarRow\<close>: the text of the div that carries
  the date, the texts of the \<open>td\<close> cells, the text of the impact div inside the sixth cell, and
  the texts of the cells marked \<open>data-previous\<close>, \<open>data-concensus\<close> and \<open>data-actual\<close>; \<open>None\<close>
  where \<open>find\<close> finds nothing.
\<close>

record calendar_row =
  date_div :: "string option"
  tds :: "string list"
  impact_div :: "string option"
  previous_td :: "string option"
  forecast_td :: "string option"
  actual_td :: "string option"

record economic_event =
  datetime_obj :: py_datetime
  currency :: string
  event :: string
  impact :: string
  previous :: string
  forecast :: string
  actual :: string

definition target_currencies :: "string list" where
  "target_currencies = [''USD'', ''EUR'']"

definition acceptable_impacts :: "string list" where
  "acceptable_impacts = [''Medium'', ''High'']"

definition or_else :: "string \<Rightarrow> string \<Rightarrow> string" where
  "or_else s d = (if s = [] then d else s)"

definition date_of :: "py_datetime \<Rightarrow> nat \<times> nat \<times> nat" where
  "date_of dt = (dt_year dt, dt_month dt, dt_day dt)"

text \<open>
  The body of the loop over the rows: \<open>None\<close> when the row is left out, by a \<open>continue\<close> or by
  the \<open>except\<close> of the row (a cell that \<open>find\<close> does not find makes \<open>.text\<close> raise).
\<close>

definition row_event :: "nat \<Rightarrow> nat \<times> nat \<times> nat \<Rightarrow> calendar_row \<Rightarrow> economic_event option" where
  "row_event current_year today row =
     (case date_div row of
        None \<Rightarrow> None
      | Some date_text \<Rightarrow>
          if length (tds row) < 6 then None
          else
            let date_str = strip date_text;
                cur = strip (tds row ! 3);
                ev = strip (tds row ! 4);
                imp = (case impact_div row of Some t \<Rightarrow> strip t | None \<Rightarrow> ''None'')
            in if cur \<notin> set target_currencies \<or> imp \<notin> set acceptable_impacts then None
               else
                 (case parse_event_datetime current_year date_str of
                    None \<Rightarrow> None
                  | Some dt \<Rightarrow>
                      if date_of dt \<notin> set [today, next_day today] then None
                      else
                        (case (previous_td row, forecast_td row, actual_td row) of
                           (Some p, Some f, Some a) \<Rightarrow>
                             Some \<lparr>datetime_obj = dt, currency = cur, event = ev, impact = imp,
                               previous = or_else (strip p) ''N/A'',
                               forecast = or_else (strip f) ''N/A'',
                               actual = or_else (strip a) ''Not released''\<rparr>
                         | _ \<Rightarrow> None)))"

definition dt_key :: "py_datetime \<Rightarrow> nat \<times> nat \<times> nat \<times> nat \<times> nat" where
  "dt_key dt = (dt_year dt, dt_month dt, dt_day dt, dt_hour dt, dt_minute dt)"

text \<open>
  \<open>_scrape_calendar\<close>: \<open>page\<close> is the list of rows of the fetched page, or \<open>None\<close> when the
  fetch or the parse of the page raised, and then the result is empty. The events are sorted
  by their datetime; \<open>list.sort\<close> is stable, as \<open>sort_key\<close> is.
\<close>

definition scrape_calendar ::
  "nat \<Rightarrow> nat \<times> nat \<times> nat \<Rightarrow> calendar_row list option \<Rightarrow> economic_event list" where
  "scrape_calendar current_year today page =
     (case page of
        None \<Rightarrow> []
      | Some rows \<Rightarrow>
          sort_key (\<lambda>e. dt_key (datetime_obj e))
            (List.map_filter (row_event current_year today) rows))"

text \<open>A row for the US payrolls on 5 January at 14:30, and the same row with an unreadable date.\<close>

definition payrolls_row :: calendar_row where
  "payrolls_row = \<lparr>date_div = Some ''Jan 5, 14:30'',
     tds = ['''', '''', '''', ''USD'', ''Non Farm Payrolls'', ''High''],
     impact_div = Some ''High'', previous_td = Some ''150K'', forecast_td = Some ''160K'',
     actual_td = Some ''''\<rparr>"

definition broken_row :: calendar_row where
  "broken_row = payrolls_row\<lparr>date_div := Some ''All Day''\<rparr>"

text \<open>
  A page of four rows: the payrolls row, the row with the unreadable date, the payrolls row
  moved to 4 January 9:00AM, and a row for a currency that is not a target. The event the
  payrolls row yields.
\<close>

definition calendar_page :: "calendar_row list" where
  "calendar_page = [payrolls_row, broken_row,
     payrolls_row\<lparr>date_div := Some ''Jan 4, 9:00AM''\<rparr>,
     payrolls_row\<lparr>tds := ['''', '''', '''', ''GBP'', ''Rate decision'', ''High'']\<rparr>]"

definition payrolls_event :: economic_event where
  "payrolls_event = \<lparr>datetime_obj =
       \<lparr>dt_year = 2026, dt_month = 1, dt_day = 5, dt_hour = 14, dt_minute = 30\<rparr>,
     currency = ''USD'', event = ''Non Farm Payrolls'', impact = ''High'',
     previous = ''150K'', forecast = ''160K'', actual = ''Not released''\<rparr>"

text \<open>
  The alert of the reference scenario: XAUUSD, target 2300.00, above, one-time, active; and a
  recurring alert of another user on another asset.
\<close>

definition gold_alert :: PriceAlert where
  "gold_alert = \<lparr>alert_id = 1, user_id = 77, asset = ''XAUUSD'', target_price = 2300,
     alert_type = ABOVE, is_active = True, created_at = 0, triggered_at = None,
     is_one_time = True\<rparr>"

definition euro_alert :: PriceAlert where
  "euro_alert = \<lparr>alert_id = 2, user_id = 78, asset = ''EURUSD'', target_price = 1,
     alert_type = BELOW, is_active = True, created_at = 0, triggered_at = None,
     is_one_time = False\<rparr>"

text \<open>A user on the free plan who already has three active alerts.\<close>

definition free_user :: User where
  "free_user = \<lparr>uid = 77, username = None, first_name = ''A'', subscription_tier = ''free'',
     subscription_expiry = None, join_date = 0, is_vip = False, credits = 10\<rparr>"

definition capped_world :: world where
  "capped_world = \<lparr>users = [free_user],
     price_alerts = [gold_alert, gold_alert\<lparr>alert_id := 3\<rparr>, gold_alert\<lparr>alert_id := 4\<rparr>],
     fsm = (\<lambda>_. None), replies = []\<rparr>"

section \<open>Properties of one evaluator tick\<close>

lemma map_of_asset_prices_fold:
  "map_of (foldl (\<lambda>d (a, price). case price of Some p \<Rightarrow> AList.update a p d | None \<Rightarrow> d)
       d0 (zip as (map fetch as))) a =
   (if a \<in> set as \<and> fetch a \<noteq> None then fetch a else map_of d0 a)"
proof (induction as arbitrary: d0)
  case Nil
  then show ?case by simp
next
  case (Cons x xs)
  show ?case
    by (cases "fetch x") (auto simp: Cons.IH update_conv')
qed

lemma map_of_asset_prices:
  "map_of (asset_prices_of as (map fetch as)) a = (if a \<in> set as then fetch a else None)"
  unfolding asset_prices_of_def
  by (simp add: map_of_asset_prices_fold)

text \<open>What one pass of the loop body adds to the state, then the same for the whole sweep.\<close>

lemma step_attempts:
  "map note_alert (attempts (alert_step ap sends x st)) =
     map note_alert (attempts st) @ (if fires ap x then [alert_id x] else [])"
  by (simp add: alert_step_def fires_def split: option.splits)

lemma sweep_attempts:
  "map note_alert (attempts (sweep ap sends xs st)) =
     map note_alert (attempts st) @ map alert_id (filter (fires ap) xs)"
proof (induction xs arbitrary: st)
  case Nil
  then show ?case by simp
next
  case (Cons x xs)
  show ?case
    unfolding sweep.simps Cons.IH step_attempts by simp
qed

lemma step_queue:
  "triggered_one_time_ids st =
     map note_alert (filter (\<lambda>n. delivered n \<and> note_one_time n) (attempts st)) \<Longrightarrow>
   triggered_one_time_ids (alert_step ap sends x st) =
     map note_alert (filter (\<lambda>n. delivered n \<and> note_one_time n) (attempts (alert_step ap sends x st)))"
  by (simp add: alert_step_def split: option.splits)

lemma sweep_queue:
  "triggered_one_time_ids st =
     map note_alert (filter (\<lambda>n. delivered n \<and> note_one_time n) (attempts st)) \<Longrightarrow>
   triggered_one_time_ids (sweep ap sends xs st) =
     map note_alert (filter (\<lambda>n. delivered n \<and> note_one_time n) (attempts (sweep ap sends xs st)))"
proof (induction xs arbitrary: st)
  case Nil
  then show ?case by simp
next
  case (Cons x xs)
  show ?case
    unfolding sweep.simps by (rule Cons.IH) (rule step_queue [OF Cons.prems])
qed

lemma step_notes:
  "\<forall>n \<in> set (attempts st). note_of ap ys n \<Longrightarrow> x \<in> set ys \<Longrightarrow>
   \<forall>n \<in> set (attempts (alert_step ap sends x st)). note_of ap ys n"
  by (auto simp: alert_step_def note_of_def split: option.splits)

lemma sweep_notes:
  "\<forall>n \<in> set (attempts st). note_of ap ys n \<Longrightarrow> set xs \<subseteq> set ys \<Longrightarrow>
   \<forall>n \<in> set (attempts (sweep ap sends xs st)). note_of ap ys n"
proof (induction xs arbitrary: st)
  case Nil
  then show ?case by simp
next
  case (Cons x xs)
  have sub: "set xs \<subseteq> set ys" and x: "x \<in> set ys" using Cons.prems(2) by auto
  show ?case
    unfolding sweep.simps by (rule Cons.IH [OF step_notes [OF Cons.prems(1) x] sub])
qed

text \<open>The same facts for a whole tick, whichever way \<open>check_price_alerts_job\<close> returns.\<close>

lemma active_asset_listed:
  "a \<in> set db \<Longrightarrow> is_active a \<Longrightarrow> asset a \<in> set (get_distinct_alert_assets db)"
  by (auto simp: get_distinct_alert_assets_def)

lemma active_price_lookup:
  "a \<in> set db \<Longrightarrow> is_active a \<Longrightarrow>
   map_of (asset_prices_of (get_distinct_alert_assets db)
     (map fetch (get_distinct_alert_assets db))) (asset a) = fetch (asset a)"
  by (simp add: map_of_asset_prices active_asset_listed)

lemma active_fires:
  "a \<in> set db \<Longrightarrow> is_active a \<Longrightarrow>
   fires (asset_prices_of (get_distinct_alert_assets db)
     (map fetch (get_distinct_alert_assets db))) a = fires_on fetch a"
  by (simp add: fires_def fires_on_def active_price_lookup)

lemma deactivate_batch_Nil: "deactivate_batch [] now db = db"
  by (simp add: deactivate_batch_def)

lemma filter_active_fires:
  "filter (fires (asset_prices_of (get_distinct_alert_assets db)
       (map fetch (get_distinct_alert_assets db)))) (filter is_active db) =
   filter (\<lambda>a. is_active a \<and> fires_on fetch a) db"
proof -
  have "filter (\<lambda>a. is_active a \<and> fires (asset_prices_of (get_distinct_alert_assets db)
       (map fetch (get_distinct_alert_assets db))) a) db =
     filter (\<lambda>a. is_active a \<and> fires_on fetch a) db"
    by (rule filter_cong) (auto simp: active_fires)
  then show ?thesis by (simp add: conj_commute)
qed

lemma tick_attempts:
  "map note_alert (snd (check_price_alerts_job fetch sends now db)) =
     map alert_id (filter (\<lambda>a. is_active a \<and> fires_on fetch a) db)"
proof -
  let ?as = "get_distinct_alert_assets db"
  let ?ap = "asset_prices_of ?as (map fetch ?as)"
  show ?thesis
  proof (cases "?as = []")
    case True
    then have "\<not> (a \<in> set db \<and> is_active a)" for a
      using active_asset_listed [of a db] by auto
    then have "filter (\<lambda>a. is_active a \<and> fires_on fetch a) db = []"
      by (simp add: filter_empty_conv)
    with True show ?thesis by (simp add: check_price_alerts_job_def)
  next
    case False
    show ?thesis
    proof (cases "?ap = []")
      case True
      have "\<not> fires_on fetch a" if "a \<in> set db" "is_active a" for a
        using active_fires [OF that, of fetch] True by (simp add: fires_def)
      then have "filter (\<lambda>a. is_active a \<and> fires_on fetch a) db = []"
        by (auto simp: filter_empty_conv)
      with True False show ?thesis by (simp add: check_price_alerts_job_def Let_def)
    next
      case ap: False
      have eq: "snd (check_price_alerts_job fetch sends now db) =
          attempts (sweep ?ap sends (filter is_active db)
            \<lparr>calls = 0, triggered_one_time_ids = [], attempts = []\<rparr>)"
        using False ap
        by (simp add: check_price_alerts_job_def Let_def get_all_active_price_alerts_def)
      show ?thesis
        unfolding eq sweep_attempts filter_active_fires by simp
    qed
  qed
qed

lemma tick_notes:
  assumes "n \<in> set (snd (check_price_alerts_job fetch sends now db))"
  shows "\<exists>a \<in> set db. is_active a \<and> note_alert n = alert_id a \<and> note_chat n = user_id a \<and>
     note_one_time n = is_one_time a \<and> fetch (asset a) = Some (note_price n) \<and>
     triggered a (note_price n)"
proof -
  let ?as = "get_distinct_alert_assets db"
  let ?ap = "asset_prices_of ?as (map fetch ?as)"
  let ?st = "sweep ?ap sends (filter is_active db)
            \<lparr>calls = 0, triggered_one_time_ids = [], attempts = []\<rparr>"
  have "n \<in> set (attempts ?st)"
    using assms
    by (simp add: check_price_alerts_job_def Let_def get_all_active_price_alerts_def
        split: if_splits)
  moreover have "\<forall>n \<in> set (attempts ?st). note_of ?ap (filter is_active db) n"
    by (rule sweep_notes) simp_all
  ultimately have "note_of ?ap (filter is_active db) n" by blast
  then obtain a where a: "a \<in> set db" "is_active a" "note_alert n = alert_id a"
    "note_chat n = user_id a" "note_one_time n = is_one_time a"
    "map_of ?ap (asset a) = Some (note_price n)" "triggered a (note_price n)"
    unfolding note_of_def by auto
  from a(6) have "fetch (asset a) = Some (note_price n)"
    unfolding active_price_lookup [OF a(1,2)] .
  with a show ?thesis by blast
qed

lemma tick_distinct:
  assumes "distinct (map alert_id db)"
  shows "distinct (map note_alert (snd (check_price_alerts_job fetch sends now db)))"
  unfolding tick_attempts using assms by (rule distinct_map_filter)

lemma tick_table:
  "fst (check_price_alerts_job fetch sends now db) =
     deactivate_batch
       (map note_alert (filter (\<lambda>n. delivered n \<and> note_one_time n)
          (snd (check_price_alerts_job fetch sends now db)))) now db"
proof -
  have q: "triggered_one_time_ids (sweep ap sends xs
            \<lparr>calls = 0, triggered_one_time_ids = [], attempts = []\<rparr>) =
     map note_alert (filter (\<lambda>n. delivered n \<and> note_one_time n) (attempts (sweep ap sends xs
            \<lparr>calls = 0, triggered_one_time_ids = [], attempts = []\<rparr>)))" for ap xs
    by (rule sweep_queue) simp
  show ?thesis
    unfolding check_price_alerts_job_def Let_def
    by (simp add: deactivate_batch_Nil q [symmetric])
qed

lemma key_unique:
  "distinct (map alert_id db) \<Longrightarrow> a \<in> set db \<Longrightarrow> b \<in> set db \<Longrightarrow>
   alert_id b = alert_id a \<Longrightarrow> b = a"
  by (meson distinct_map inj_onD)

lemma tick_attempt_iff:
  assumes "distinct (map alert_id db)" and "a \<in> set db" and "is_active a"
  shows "alert_id a \<in> note_alert ` set (snd (check_price_alerts_job fetch sends now db))
      \<longleftrightarrow> fires_on fetch a"
proof -
  have "note_alert ` set (snd (check_price_alerts_job fetch sends now db)) =
      alert_id ` set (filter (\<lambda>a. is_active a \<and> fires_on fetch a) db)"
    using arg_cong [OF tick_attempts, of set fetch sends now db] by simp
  also have "alert_id a \<in> \<dots> \<longleftrightarrow> fires_on fetch a"
  proof
    assume "alert_id a \<in> alert_id ` set (filter (\<lambda>a. is_active a \<and> fires_on fetch a) db)"
    then obtain b where b: "b \<in> set db" "alert_id b = alert_id a" "fires_on fetch b"
      by (elim imageE) force
    from key_unique [OF assms(1,2) b(1,2)] b(3) show "fires_on fetch a" by simp
  next
    assume "fires_on fetch a"
    with assms(2,3) have "a \<in> set (filter (\<lambda>a. is_active a \<and> fires_on fetch a) db)"
      by simp
    then show "alert_id a \<in> alert_id ` set (filter (\<lambda>a. is_active a \<and> fires_on fetch a) db)"
      by (rule imageI)
  qed
  finally show ?thesis .
qed

text \<open>The batched update and the other statements, row by row.\<close>

lemma deactivate_batch_keeps:
  assumes "a \<in> set db" and "alert_id a \<notin> set ids"
  shows "a \<in> set (deactivate_batch ids now db)"
  unfolding deactivate_batch_def set_map
proof (rule image_eqI)
  show "a \<in> set db" by fact
  show "a = (if alert_id a \<in> set ids then a\<lparr>is_active := False, triggered_at := Some now\<rparr>
      else a)"
    using assms(2) by simp
qed

lemma deactivate_batch_ids: "map alert_id (deactivate_batch ids now db) = map alert_id db"
  by (simp add: deactivate_batch_def comp_def if_distrib [of alert_id])

lemma deactivate_batch_row:
  assumes "r \<in> set (deactivate_batch ids now db)"
  shows "\<exists>a \<in> set db. alert_id r = alert_id a \<and>
    (alert_id a \<in> set ids \<longrightarrow> \<not> is_active r) \<and> (alert_id a \<notin> set ids \<longrightarrow> r = a)"
proof -
  from assms obtain a where a: "a \<in> set db"
    and r: "r = (if alert_id a \<in> set ids then a\<lparr>is_active := False, triggered_at := Some now\<rparr> else a)"
    unfolding deactivate_batch_def by auto
  show ?thesis
    by (rule bexI [OF _ a]) (simp add: r)
qed

lemma tick_ids:
  "map alert_id (fst (check_price_alerts_job fetch sends now db)) = map alert_id db"
  unfolding tick_table by (rule deactivate_batch_ids)

lemma inactive_iff: "inactive i db \<longleftrightarrow> (\<forall>r \<in> set db. alert_id r = i \<longrightarrow> \<not> is_active r)"
  by (simp add: inactive_def list_all_iff)

lemma inactive_deactivate_batch:
  assumes "inactive i db"
  shows "inactive i (deactivate_batch ids now db)"
  unfolding inactive_iff
proof (intro ballI impI)
  fix r assume r: "r \<in> set (deactivate_batch ids now db)" and i: "alert_id r = i"
  from deactivate_batch_row [OF r] obtain a where a: "a \<in> set db" "alert_id r = alert_id a"
    "alert_id a \<in> set ids \<longrightarrow> \<not> is_active r" "alert_id a \<notin> set ids \<longrightarrow> r = a"
    by blast
  show "\<not> is_active r"
  proof (cases "alert_id a \<in> set ids")
    case True
    with a(3) show ?thesis by blast
  next
    case False
    with a(4) have "r = a" by blast
    with a(1) i assms show ?thesis unfolding inactive_iff by blast
  qed
qed

lemma deactivate_price_alert_batch:
  "deactivate_price_alert i now db = deactivate_batch [i] now db"
  by (simp add: deactivate_price_alert_def deactivate_batch_def)

lemma inactive_filter: "inactive i db \<Longrightarrow> inactive i (filter P db)"
  unfolding inactive_iff by (simp only: set_filter) blast

lemma inactive_operation:
  assumes "inactive i db" and "\<not> issues i x"
  shows "inactive i (fst (apply_operation x db))"
proof (cases x)
  case (Tick fetch sends now)
  then show ?thesis
    using inactive_deactivate_batch [OF assms(1)] by (simp add: tick_table)
next
  case (AddAlert new_id now uid a target ty one_time)
  with assms show ?thesis
    by (simp add: add_price_alert_def inactive_def)
next
  case (Deactivate j now)
  then show ?thesis
    using inactive_deactivate_batch [OF assms(1)] by (simp add: deactivate_price_alert_batch)
next
  case (Delete j)
  then show ?thesis
    using inactive_filter [OF assms(1)] by (simp add: delete_price_alert_def)
qed

lemma inactive_not_notified:
  assumes "inactive i db" and "n \<in> set (snd (apply_operation x db))"
  shows "note_alert n \<noteq> i"
proof (cases x)
  case (Tick fetch sends now)
  with assms(2) have "n \<in> set (snd (check_price_alerts_job fetch sends now db))" by simp
  then obtain a where "a \<in> set db" "is_active a" "note_alert n = alert_id a"
    using tick_notes by blast
  with assms(1) show ?thesis unfolding inactive_iff by metis
qed (use assms(2) in simp_all)

lemma inactive_run:
  assumes "inactive i db" and "list_all (\<lambda>x. \<not> issues i x) ops"
  shows "inactive i (fst (run ops db)) \<and> list_all (\<lambda>n. note_alert n \<noteq> i) (snd (run ops db))"
  using assms
proof (induction ops arbitrary: db)
  case Nil
  then show ?case by simp
next
  case (Cons x ops)
  obtain db1 ns1 where step: "apply_operation x db = (db1, ns1)" by (cases "apply_operation x db")
  obtain db2 ns2 where rest: "run ops db1 = (db2, ns2)" by (cases "run ops db1")
  from Cons.prems have x: "\<not> issues i x" and ops: "list_all (\<lambda>x. \<not> issues i x) ops" by simp_all
  have db1: "inactive i db1"
    using inactive_operation [OF Cons.prems(1) x] step by simp
  have ns1: "list_all (\<lambda>n. note_alert n \<noteq> i) ns1"
    unfolding list_all_iff using inactive_not_notified [OF Cons.prems(1), of _ x] step by simp
  from Cons.IH [OF db1 ops] rest
  have "inactive i db2" "list_all (\<lambda>n. note_alert n \<noteq> i) ns2" by simp_all
  with ns1 show ?case by (simp add: step rest)
qed

lemma distinct_map_eq:
  "distinct (map f xs) \<Longrightarrow> x \<in> set xs \<Longrightarrow> y \<in> set xs \<Longrightarrow> f y = f x \<Longrightarrow> y = x"
  by (meson distinct_map inj_onD)

text \<open>What a tick does to the row of an alert it notified, by the outcome of the send.\<close>

lemma failed_send_keeps_row:
  assumes d: "distinct (map alert_id db)"
    and n: "n \<in> set (snd (check_price_alerts_job fetch sends now db))" and f: "\<not> delivered n"
    and a: "a \<in> set db" "alert_id a = note_alert n"
  shows "a \<in> set (fst (check_price_alerts_job fetch sends now db))"
proof -
  let ?ns = "snd (check_price_alerts_job fetch sends now db)"
  have "alert_id a \<notin> set (map note_alert (filter (\<lambda>n. delivered n \<and> note_one_time n) ?ns))"
  proof
    assume "alert_id a \<in> set (map note_alert (filter (\<lambda>n. delivered n \<and> note_one_time n) ?ns))"
    then have "note_alert n \<in> note_alert ` {m \<in> set ?ns. delivered m \<and> note_one_time m}"
      unfolding a(2) by (simp only: set_map set_filter)
    then obtain m where m: "m \<in> set ?ns" "delivered m" "note_alert m = note_alert n"
      by (elim imageE) (metis mem_Collect_eq)
    from distinct_map_eq [OF tick_distinct [OF d] n m(1) m(3)] m(2) f show False by simp
  qed
  with a(1) show ?thesis
    unfolding tick_table by (rule deactivate_batch_keeps)
qed

lemma delivered_one_time_inactive:
  assumes "n \<in> set (snd (check_price_alerts_job fetch sends now db))"
    and "delivered n" and "note_one_time n"
  shows "inactive (note_alert n) (fst (check_price_alerts_job fetch sends now db))"
  unfolding inactive_iff
proof (intro ballI impI)
  let ?ns = "snd (check_price_alerts_job fetch sends now db)"
  let ?ids = "map note_alert (filter (\<lambda>n. delivered n \<and> note_one_time n) ?ns)"
  fix r assume "r \<in> set (fst (check_price_alerts_job fetch sends now db))"
    and i: "alert_id r = note_alert n"
  then have "r \<in> set (deactivate_batch ?ids now db)" by (simp add: tick_table [symmetric])
  from deactivate_batch_row [OF this]
  obtain a :: PriceAlert
    where a: "alert_id r = alert_id a" "alert_id a \<in> set ?ids \<longrightarrow> \<not> is_active r"
    by blast
  have "n \<in> {m \<in> set ?ns. delivered m \<and> note_one_time m}" using assms by simp
  then have "note_alert n \<in> note_alert ` {m \<in> set ?ns. delivered m \<and> note_one_time m}"
    by (rule imageI)
  then have "note_alert n \<in> set ?ids" by (simp only: set_map set_filter)
  with a i show "\<not> is_active r" by metis
qed

lemmas tick_eval = check_price_alerts_job_def get_distinct_alert_assets_def asset_prices_of_def
  get_all_active_price_alerts_def alert_step_def triggered_def deactivate_batch_def Let_def

section \<open>The claims about the price alert evaluator\<close>

text \<open>
  C1. In \<open>check_price_alerts_job\<close>, an active alert whose asset has a fetched price \<open>p\<close> in
  the tick triggers (a notification is attempted for it) if and only if it is an ABOVE alert
  and \<open>p \<ge> target_price\<close>, or a BELOW alert and \<open>p \<le> target_price\<close>. Both comparisons
  are inclusive: a price equal to the target triggers. This holds for every transport, so for
  every pattern of send failures.
\<close>

theorem alert_triggers_iff_inclusive:
  assumes "distinct (map alert_id db)" and "a \<in> set db" and "is_active a"
    and "fetch (asset a) = Some p"
  shows "(alert_id a \<in> note_alert ` set (snd (check_price_alerts_job fetch sends now db))
          \<longleftrightarrow> (alert_type a = ABOVE \<and> p \<ge> target_price a) \<or>
              (alert_type a = BELOW \<and> p \<le> target_price a)) \<and>
         (p = target_price a \<longrightarrow>
            alert_id a \<in> note_alert ` set (snd (check_price_alerts_job fetch sends now db)))"
proof -
  have iff: "alert_id a \<in> note_alert ` set (snd (check_price_alerts_job fetch sends now db))
      \<longleftrightarrow> triggered a p"
    unfolding tick_attempt_iff [OF assms(1,2,3)] by (simp add: fires_on_def assms(4))
  have "triggered a p" if "p = target_price a"
    using that by (cases "alert_type a") (simp_all add: triggered_def)
  with iff show ?thesis unfolding triggered_def by blast
qed

theorem alert_triggers_iff_inclusive_witness:
  "distinct (map alert_id [gold_alert]) \<and> gold_alert \<in> set [gold_alert] \<and>
   is_active gold_alert \<and> (\<lambda>_. Some 2300) (asset gold_alert) = Some (2300::real) \<and>
   2300 = target_price gold_alert \<and>
   alert_id gold_alert \<in> note_alert ` set (snd (check_price_alerts_job (\<lambda>_. Some 2300)
     (\<lambda>_. True) 5 [gold_alert]))"
proof -
  have h: "distinct (map alert_id [gold_alert])" "gold_alert \<in> set [gold_alert]"
    "is_active gold_alert" "(\<lambda>_. Some 2300) (asset gold_alert) = Some (2300::real)"
    "2300 = target_price gold_alert"
    by (simp_all add: gold_alert_def)
  from alert_triggers_iff_inclusive [OF h(1-4), of "\<lambda>_. True" 5] h show ?thesis
    by blast
qed

text \<open>
  C6. In a tick, a price-fetch failure for one asset does not block the prices of the other
  assets: the dict built from the fetch results gives every active asset its own fetch result.
  An active alert whose asset has no fetched price is skipped: no notification is attempted
  for it and its row is in the table unchanged after the tick. An alert whose asset has a
  price is evaluated. The skip lasts for this tick only: in the next tick, with a price, the
  same alert is evaluated.
\<close>

theorem fetch_failure_skips_only_its_alerts:
  assumes "distinct (map alert_id db)" and "a \<in> set db" and "is_active a"
  shows "(\<forall>x \<in> set (get_distinct_alert_assets db).
            map_of (asset_prices_of (get_distinct_alert_assets db)
              (map fetch (get_distinct_alert_assets db))) x = fetch x) \<and>
         (fetch (asset a) = None \<longrightarrow>
            alert_id a \<notin> note_alert ` set (snd (check_price_alerts_job fetch sends now db)) \<and>
            a \<in> set (fst (check_price_alerts_job fetch sends now db))) \<and>
         (\<forall>p. fetch (asset a) = Some p \<longrightarrow>
            (alert_id a \<in> note_alert ` set (snd (check_price_alerts_job fetch sends now db))
               \<longleftrightarrow> triggered a p)) \<and>
         (\<forall>p. fetch (asset a) = None \<and> fetch' (asset a) = Some p \<longrightarrow>
            (alert_id a \<in> note_alert ` set (snd (check_price_alerts_job fetch' sends' now'
                 (fst (check_price_alerts_job fetch sends now db))))
               \<longleftrightarrow> triggered a p))"
proof -
  let ?ns = "snd (check_price_alerts_job fetch sends now db)"
  let ?db1 = "fst (check_price_alerts_job fetch sends now db)"
  have prices: "\<forall>x \<in> set (get_distinct_alert_assets db).
            map_of (asset_prices_of (get_distinct_alert_assets db)
              (map fetch (get_distinct_alert_assets db))) x = fetch x"
    by (simp add: map_of_asset_prices)
  have skipped: "alert_id a \<notin> note_alert ` set ?ns \<and> a \<in> set ?db1"
    if none: "fetch (asset a) = None"
  proof
    show not_in: "alert_id a \<notin> note_alert ` set ?ns"
      unfolding tick_attempt_iff [OF assms] by (simp add: fires_on_def none)
    have "set (map note_alert (filter (\<lambda>n. delivered n \<and> note_one_time n) ?ns))
        \<subseteq> note_alert ` set ?ns"
      by (simp only: set_map set_filter) blast
    with not_in have "alert_id a \<notin> set (map note_alert
        (filter (\<lambda>n. delivered n \<and> note_one_time n) ?ns))"
      by blast
    with assms(2) show "a \<in> set ?db1"
      unfolding tick_table by (rule deactivate_batch_keeps)
  qed
  have evaluated: "alert_id a \<in> note_alert ` set ?ns \<longleftrightarrow> triggered a p"
    if "fetch (asset a) = Some p" for p
    unfolding tick_attempt_iff [OF assms] by (simp add: fires_on_def that)
  have later: "alert_id a \<in> note_alert ` set (snd (check_price_alerts_job fetch' sends' now' ?db1))
      \<longleftrightarrow> triggered a p"
    if "fetch (asset a) = None" and p: "fetch' (asset a) = Some p" for p
  proof -
    have d1: "distinct (map alert_id ?db1)" using assms(1) by (simp only: tick_ids)
    have a1: "a \<in> set ?db1" using skipped [OF that(1)] by blast
    show ?thesis
      unfolding tick_attempt_iff [OF d1 a1 assms(3)] by (simp add: fires_on_def p)
  qed
  from prices skipped evaluated later show ?thesis by blast
qed

theorem fetch_failure_skips_only_its_alerts_witness:
  "distinct (map alert_id [gold_alert, euro_alert]) \<and> gold_alert \<in> set [gold_alert, euro_alert] \<and>
   is_active gold_alert \<and>
   (\<lambda>x. if x = ''XAUUSD'' then None else Some (1::real)) (asset gold_alert) = None \<and>
   alert_id gold_alert \<notin> note_alert ` set (snd (check_price_alerts_job
      (\<lambda>x. if x = ''XAUUSD'' then None else Some 1) (\<lambda>_. True) 5 [gold_alert, euro_alert])) \<and>
   gold_alert \<in> set (fst (check_price_alerts_job
      (\<lambda>x. if x = ''XAUUSD'' then None else Some 1) (\<lambda>_. True) 5 [gold_alert, euro_alert]))"
proof -
  have h: "distinct (map alert_id [gold_alert, euro_alert])"
    "gold_alert \<in> set [gold_alert, euro_alert]" "is_active gold_alert"
    by (simp_all add: gold_alert_def euro_alert_def)
  have f: "(\<lambda>x. if x = ''XAUUSD'' then None else Some (1::real)) (asset gold_alert) = None"
    by (simp add: gold_alert_def)
  from fetch_failure_skips_only_its_alerts [OF h,
      of "\<lambda>x. if x = ''XAUUSD'' then None else Some 1" "\<lambda>_. True" 5] f h
  show ?thesis by blast
qed

text \<open>
  C2, as amended. For every tick and every pattern of send failures: the alerts for which a
  send is attempted are exactly the active alerts that fire against the fetched prices, in
  table order, so a send that raises does not prevent evaluating and firing the remaining
  alerts. The row of an alert whose send raised is left as it was, active. That includes a
  triggered one-time alert: it is not queued for deactivation when its send raised, and it is
  deactivated in the batch at the end of the tick only when its send returned.
\<close>

theorem send_failure_isolated_alert_stays_active:
  assumes "distinct (map alert_id db)"
  shows "map note_alert (snd (check_price_alerts_job fetch sends now db)) =
           map alert_id (filter (\<lambda>a. is_active a \<and> fires_on fetch a) db) \<and>
         (\<forall>n \<in> set (snd (check_price_alerts_job fetch sends now db)). \<not> delivered n \<longrightarrow>
            (\<forall>a \<in> set db. alert_id a = note_alert n \<longrightarrow>
               is_active a \<and> a \<in> set (fst (check_price_alerts_job fetch sends now db)))) \<and>
         (\<forall>n \<in> set (snd (check_price_alerts_job fetch sends now db)).
            delivered n \<and> note_one_time n \<longrightarrow>
              inactive (note_alert n) (fst (check_price_alerts_job fetch sends now db)))"
proof (intro conjI ballI impI)
  show "map note_alert (snd (check_price_alerts_job fetch sends now db)) =
           map alert_id (filter (\<lambda>a. is_active a \<and> fires_on fetch a) db)"
    by (rule tick_attempts)
next
  fix n a
  assume n: "n \<in> set (snd (check_price_alerts_job fetch sends now db))" and f: "\<not> delivered n"
    and a: "a \<in> set db" "alert_id a = note_alert n"
  from tick_notes [OF n] obtain b :: PriceAlert
    where b: "b \<in> set db" "is_active b" "note_alert n = alert_id b"
    by blast
  from key_unique [OF assms a(1) b(1)] a(2) b(3) have "b = a" by simp
  with b(2) show "is_active a" by simp
  show "a \<in> set (fst (check_price_alerts_job fetch sends now db))"
    by (rule failed_send_keeps_row [OF assms n f a])
next
  fix n
  assume "n \<in> set (snd (check_price_alerts_job fetch sends now db))"
    and "delivered n \<and> note_one_time n"
  then show "inactive (note_alert n) (fst (check_price_alerts_job fetch sends now db))"
    using delivered_one_time_inactive by blast
qed

theorem send_failure_isolated_alert_stays_active_witness:
  "distinct (map alert_id [gold_alert, euro_alert]) \<and>
   map note_alert (snd (check_price_alerts_job (\<lambda>x. if x = ''XAUUSD'' then Some 2300 else Some 1)
      (\<lambda>k. k \<noteq> 0) 5 [gold_alert, euro_alert])) = [1, 2] \<and>
   gold_alert \<in> set (fst (check_price_alerts_job (\<lambda>x. if x = ''XAUUSD'' then Some 2300 else Some 1)
      (\<lambda>k. k \<noteq> 0) 5 [gold_alert, euro_alert]))"
proof -
  let ?F = "\<lambda>x. if x = ''XAUUSD'' then Some (2300::real) else Some 1"
  let ?n = "\<lparr>note_alert = 1, note_chat = 77, note_price = 2300, note_one_time = True,
    delivered = False\<rparr>"
  have h: "distinct (map alert_id [gold_alert, euro_alert])"
    by (simp add: gold_alert_def euro_alert_def)
  note t = send_failure_isolated_alert_stays_active [OF h, of ?F "\<lambda>k. k \<noteq> 0" 5]
  have n: "?n \<in> set (snd (check_price_alerts_job ?F (\<lambda>k. k \<noteq> 0) 5 [gold_alert, euro_alert]))"
    by (simp add: tick_eval gold_alert_def euro_alert_def)
  have g: "\<not> delivered ?n" "gold_alert \<in> set [gold_alert, euro_alert]"
    "alert_id gold_alert = note_alert ?n"
    by (simp_all add: gold_alert_def)
  have ids: "map alert_id (filter (\<lambda>a. is_active a \<and> fires_on ?F a) [gold_alert, euro_alert]) = [1, 2]"
    by (simp add: fires_on_def triggered_def gold_alert_def euro_alert_def)
  from t [THEN conjunct1] ids
  have first: "map note_alert (snd (check_price_alerts_job ?F (\<lambda>k. k \<noteq> 0) 5
      [gold_alert, euro_alert])) = [1, 2]"
    by (rule trans)
  from t [THEN conjunct2, THEN conjunct1, rule_format, OF n g]
  have "gold_alert \<in> set (fst (check_price_alerts_job ?F (\<lambda>k. k \<noteq> 0) 5
      [gold_alert, euro_alert]))"
    by (rule conjunct2)
  with first h show ?thesis by (intro conjI)
qed

text \<open>
  C2 as stated fails: here the first send of the tick raises and the second returns. Both
  alerts are notified, but the triggered one-time alert whose send raised is not deactivated
  by the batch at the end of the tick; the table is unchanged.
\<close>

theorem failed_send_leaves_one_time_alert_active:
  "check_price_alerts_job (\<lambda>x. if x = ''XAUUSD'' then Some 2300 else Some 1) (\<lambda>k. k \<noteq> 0) 5
      [gold_alert, euro_alert] =
     ([gold_alert, euro_alert],
      [\<lparr>note_alert = 1, note_chat = 77, note_price = 2300, note_one_time = True, delivered = False\<rparr>,
       \<lparr>note_alert = 2, note_chat = 78, note_price = 1, note_one_time = False, delivered = True\<rparr>]) \<and>
   is_one_time gold_alert \<and> is_active gold_alert \<and> triggered gold_alert 2300"
  by (simp add: tick_eval gold_alert_def euro_alert_def)

text \<open>
  C3, as amended. Once a one-time alert has triggered and its notification was sent, the tick
  sets it inactive in the one batched update that follows the sweep; no alert is notified
  twice within a tick; and from then on, whatever ticks, inserts, deactivations and deletions
  follow, no row under its key is active and no further notification is attempted for it, as
  long as the database does not issue its key again to a new row.
\<close>

theorem one_time_alert_deactivated_for_good:
  assumes "distinct (map alert_id db)"
    and "n \<in> set (snd (check_price_alerts_job fetch sends now db))"
    and "delivered n" and "note_one_time n"
    and "list_all (\<lambda>x. \<not> issues (note_alert n) x) ops"
  shows "fst (check_price_alerts_job fetch sends now db) =
           deactivate_batch
             (map note_alert (filter (\<lambda>m. delivered m \<and> note_one_time m)
                (snd (check_price_alerts_job fetch sends now db)))) now db \<and>
         distinct (map note_alert (snd (check_price_alerts_job fetch sends now db))) \<and>
         inactive (note_alert n) (fst (check_price_alerts_job fetch sends now db)) \<and>
         inactive (note_alert n) (fst (run ops (fst (check_price_alerts_job fetch sends now db)))) \<and>
         list_all (\<lambda>m. note_alert m \<noteq> note_alert n)
           (snd (run ops (fst (check_price_alerts_job fetch sends now db))))"
proof -
  have off: "inactive (note_alert n) (fst (check_price_alerts_job fetch sends now db))"
    by (rule delivered_one_time_inactive [OF assms(2,3,4)])
  from tick_table tick_distinct [OF assms(1)] off inactive_run [OF off assms(5)]
  show ?thesis by (intro conjI) blast+
qed

theorem one_time_alert_deactivated_for_good_witness:
  "distinct (map alert_id [gold_alert]) \<and>
   \<lparr>note_alert = 1, note_chat = 77, note_price = 2300, note_one_time = True, delivered = True\<rparr>
     \<in> set (snd (check_price_alerts_job (\<lambda>_. Some 2300) (\<lambda>_. True) 5 [gold_alert])) \<and>
   list_all (\<lambda>x. \<not> issues 1 x)
     [Tick (\<lambda>_. Some 2400) (\<lambda>_. True) 6, AddAlert 2 7 77 ''XAUUSD'' 2500 ABOVE True,
      Tick (\<lambda>_. Some 2600) (\<lambda>_. True) 8] \<and>
   inactive 1 (fst (check_price_alerts_job (\<lambda>_. Some 2300) (\<lambda>_. True) 5 [gold_alert])) \<and>
   inactive 1 (fst (run
     [Tick (\<lambda>_. Some 2400) (\<lambda>_. True) 6, AddAlert 2 7 77 ''XAUUSD'' 2500 ABOVE True,
      Tick (\<lambda>_. Some 2600) (\<lambda>_. True) 8]
     (fst (check_price_alerts_job (\<lambda>_. Some 2300) (\<lambda>_. True) 5 [gold_alert])))) \<and>
   list_all (\<lambda>m. note_alert m \<noteq> 1) (snd (run
     [Tick (\<lambda>_. Some 2400) (\<lambda>_. True) 6, AddAlert 2 7 77 ''XAUUSD'' 2500 ABOVE True,
      Tick (\<lambda>_. Some 2600) (\<lambda>_. True) 8]
     (fst (check_price_alerts_job (\<lambda>_. Some 2300) (\<lambda>_. True) 5 [gold_alert]))))"
proof -
  let ?n = "\<lparr>note_alert = 1, note_chat = 77, note_price = 2300, note_one_time = True,
    delivered = True\<rparr>"
  let ?ops = "[Tick (\<lambda>_. Some 2400) (\<lambda>_. True) 6, AddAlert 2 7 77 ''XAUUSD'' 2500 ABOVE True,
      Tick (\<lambda>_. Some 2600) (\<lambda>_. True) 8]"
  have h1: "distinct (map alert_id [gold_alert])" by simp
  have h2: "?n \<in> set (snd (check_price_alerts_job (\<lambda>_. Some 2300) (\<lambda>_. True) 5 [gold_alert]))"
    by (simp add: tick_eval gold_alert_def)
  have h3: "delivered ?n" "note_one_time ?n" by simp_all
  have h5: "list_all (\<lambda>x. \<not> issues (note_alert ?n) x) ?ops" by simp
  have e: "note_alert ?n = 1" by simp
  note t = one_time_alert_deactivated_for_good [OF h1 h2 h3 h5, unfolded e]
  from t have c: "inactive 1 (fst (check_price_alerts_job (\<lambda>_. Some 2300) (\<lambda>_. True) 5 [gold_alert]))"
    "inactive 1 (fst (run ?ops (fst (check_price_alerts_job (\<lambda>_. Some 2300) (\<lambda>_. True) 5
       [gold_alert]))))"
    "list_all (\<lambda>m. note_alert m \<noteq> 1) (snd (run ?ops (fst (check_price_alerts_job
       (\<lambda>_. Some 2300) (\<lambda>_. True) 5 [gold_alert]))))"
    by blast+
  from h1 h2 h5 [unfolded e] c show ?thesis by (intro conjI)
qed

text \<open>
  C3 as stated fails for a one-time alert that triggers while its send raises: it stays active
  after the tick and triggers again in the next tick.
\<close>

theorem one_time_alert_fires_again_after_failed_send:
  "run [Tick (\<lambda>_. Some 2300) (\<lambda>_. False) 5, Tick (\<lambda>_. Some 2305) (\<lambda>_. True) 6] [gold_alert] =
     ([gold_alert\<lparr>is_active := False, triggered_at := Some 6\<rparr>],
      [\<lparr>note_alert = 1, note_chat = 77, note_price = 2300, note_one_time = True, delivered = False\<rparr>,
       \<lparr>note_alert = 1, note_chat = 77, note_price = 2305, note_one_time = True, delivered = True\<rparr>]) \<and>
   fst (check_price_alerts_job (\<lambda>_. Some 2300) (\<lambda>_. False) 5 [gold_alert]) = [gold_alert] \<and>
   is_one_time gold_alert \<and> is_active gold_alert"
  by (simp add: tick_eval gold_alert_def)

section \<open>The fan-out\<close>

lemma gather_fst: "map fst (gather_send_message sends k xs) = xs"
  by (simp add: gather_send_message_def comp_def case_prod_unfold map_snd_enumerate)

lemma map_fst_zip_fun:
  "length as = length bs \<Longrightarrow> map (\<lambda>x. f (fst x)) (zip as bs) = map f as"
  by (induction as bs rule: list_induct2) simp_all

lemma gather_snd: "map snd (gather_send_message sends k xs) = map (\<lambda>i. sends (k + i)) [0..<length xs]"
  using map_fst_zip_fun [of "[0..<length xs]" xs "\<lambda>i. sends (k + i)"]
  by (simp add: gather_send_message_def comp_def case_prod_unfold enumerate_eq_zip)

lemma count_results:
  "foldl (\<lambda>(sent, failed) result.
       if \<not> snd result then (sent, failed + 1) else (sent + 1, failed)) (s, f) rs =
   (s + length (filter (\<lambda>r. snd r) rs), f + length (filter (\<lambda>r. \<not> snd r) rs))"
  by (induction rs arbitrary: s f) simp_all

lemma filter_results_length:
  "length (filter (\<lambda>r. P (snd r)) rs) = length (filter P (map snd rs))"
  by (simp add: filter_map comp_def)

lemma gather_failed:
  "length (filter (\<lambda>r. \<not> snd r) (gather_send_message sends 0 xs)) = failures sends (length xs)"
  unfolding filter_results_length gather_snd failures_def
  by (simp add: filter_map comp_def)

lemma gather_sent:
  "length (filter (\<lambda>r. snd r) (gather_send_message sends 0 xs)) =
     length xs - failures sends (length xs)"
proof -
  have "length (filter (\<lambda>r. snd r) (gather_send_message sends 0 xs)) +
      length (filter (\<lambda>r. \<not> snd r) (gather_send_message sends 0 xs)) =
      length (gather_send_message sends 0 xs)"
    by (rule sum_length_filter_compl)
  moreover have "length (gather_send_message sends 0 xs) = length xs"
    by (simp add: gather_send_message_def)
  ultimately show ?thesis unfolding gather_failed by simp
qed

lemma tell_admins_raised:
  "snd (tell_admins sends k as) \<Longrightarrow> \<exists>j < length as. \<not> sends (k + j)"
proof (induction as arbitrary: k)
  case Nil
  then show ?case by simp
next
  case (Cons a as)
  show ?case
  proof (cases "sends k")
    case False
    then have "\<not> sends (k + 0)" by simp
    then show ?thesis by (intro exI [of _ 0]) simp
  next
    case True
    with Cons.prems have "snd (tell_admins sends (Suc k) as)"
      by (simp split: prod.splits)
    from Cons.IH [OF this] obtain j where "j < length as" "\<not> sends (Suc k + j)" by blast
    then show ?thesis by (intro exI [of _ "Suc j"]) simp
  qed
qed

text \<open>
  C7, as amended. In each of the three fan-outs of one message to \<open>N\<close> recipients of which
  \<open>k\<close> sends raise, a send is attempted for every one of the \<open>N\<close> recipients, whatever the
  others do, and no recipient's failure leaves the dispatch as an exception: the broadcast
  always yields its report, the calendar job raises only when a later report to an admin
  raises, and the analysis job never reaches its \<open>except\<close> branch through a recipient. What
  is reported differs: the broadcast reports \<open>sent = N - k\<close> and \<open>failed = k\<close>; the daily
  calendar job, for \<open>N > 0\<close>, counts \<open>sent_count = N - k\<close> only; the analysis job, for
  \<open>N > 0\<close>, keeps no count and logs one warning for each of the \<open>k\<close> failed recipients.
\<close>

theorem fanout_counts:
  "broadcast_attempted (send_broadcast_confirm_handler sends user_ids) = user_ids \<and>
   failed (send_broadcast_confirm_handler sends user_ids) = failures sends (length user_ids) \<and>
   sent (send_broadcast_confirm_handler sends user_ids) =
     length user_ids - failures sends (length user_ids) \<and>
   (all_users \<noteq> [] \<longrightarrow>
      (\<exists>r. send_daily_economic_calendar_job sends all_users admin_ids = Some r \<and>
         calendar_attempted r = all_users \<and>
         sent_count r = length all_users - failures sends (length all_users) \<and>
         (job_raised r \<longrightarrow> (\<exists>j < length admin_ids. \<not> sends (length all_users + j))))) \<and>
   (vip_users \<noteq> [] \<longrightarrow>
      analysis_attempted (scheduled_analysis_job sends True True vip_users admin_ids) = vip_users \<and>
      length (analysis_warned (scheduled_analysis_job sends True True vip_users admin_ids)) =
        failures sends (length vip_users) \<and>
      admins_alerted (scheduled_analysis_job sends True True vip_users admin_ids) = [])"
proof (intro conjI impI)
  show "broadcast_attempted (send_broadcast_confirm_handler sends user_ids) = user_ids"
    by (simp add: send_broadcast_confirm_handler_def Let_def count_results gather_fst)
  show "failed (send_broadcast_confirm_handler sends user_ids) = failures sends (length user_ids)"
    by (simp add: send_broadcast_confirm_handler_def Let_def count_results gather_failed)
  show "sent (send_broadcast_confirm_handler sends user_ids) =
     length user_ids - failures sends (length user_ids)"
    by (simp add: send_broadcast_confirm_handler_def Let_def count_results gather_sent)
next
  assume users: "all_users \<noteq> []"
  let ?n = "length all_users - failures sends (length all_users)"
  obtain told raised where t: "tell_admins sends (length all_users) admin_ids = (told, raised)"
    by (cases "tell_admins sends (length all_users) admin_ids")
  have r: "raised \<longrightarrow> (\<exists>j < length admin_ids. \<not> sends (length all_users + j))"
    using tell_admins_raised [of sends "length all_users" admin_ids] t by simp
  show "\<exists>r. send_daily_economic_calendar_job sends all_users admin_ids = Some r \<and>
         calendar_attempted r = all_users \<and>
         sent_count r = length all_users - failures sends (length all_users) \<and>
         (job_raised r \<longrightarrow> (\<exists>j < length admin_ids. \<not> sends (length all_users + j)))"
  proof (cases "0 < ?n")
    case True
    with users t r show ?thesis
      by (simp add: send_daily_economic_calendar_job_def Let_def gather_sent gather_fst
          del: length_greater_0_conv)
  next
    case False
    with users show ?thesis
      by (simp add: send_daily_economic_calendar_job_def Let_def gather_sent gather_fst
          del: length_greater_0_conv)
  qed
next
  assume vips: "vip_users \<noteq> []"
  then show "analysis_attempted (scheduled_analysis_job sends True True vip_users admin_ids) =
      vip_users"
    by (simp add: scheduled_analysis_job_def Let_def gather_fst)
  from vips show "length (analysis_warned
      (scheduled_analysis_job sends True True vip_users admin_ids)) =
      failures sends (length vip_users)"
    by (simp add: scheduled_analysis_job_def Let_def gather_failed)
  from vips show "admins_alerted (scheduled_analysis_job sends True True vip_users admin_ids) = []"
    by (simp add: scheduled_analysis_job_def Let_def)
qed

theorem fanout_counts_witness:
  "[10, 20, 30] \<noteq> ([] :: int list) \<and> failures (\<lambda>i. i \<noteq> 1) 3 = 1 \<and>
   broadcast_attempted (send_broadcast_confirm_handler (\<lambda>i. i \<noteq> 1) [10, 20, 30]) = [10, 20, 30] \<and>
   failed (send_broadcast_confirm_handler (\<lambda>i. i \<noteq> 1) [10, 20, 30]) = 1 \<and>
   sent (send_broadcast_confirm_handler (\<lambda>i. i \<noteq> 1) [10, 20, 30]) = 2 \<and>
   (\<exists>r. send_daily_economic_calendar_job (\<lambda>i. i \<noteq> 1) [10, 20, 30] [7] = Some r \<and>
      calendar_attempted r = [10, 20, 30] \<and> sent_count r = 2) \<and>
   analysis_attempted (scheduled_analysis_job (\<lambda>i. i \<noteq> 1) True True [10, 20, 30] [7]) =
     [10, 20, 30] \<and>
   length (analysis_warned (scheduled_analysis_job (\<lambda>i. i \<noteq> 1) True True [10, 20, 30] [7])) = 1"
proof -
  have k: "failures (\<lambda>i. i \<noteq> 1) 3 = 1"
    by (simp add: failures_def upt_rec)
  have n: "[10, 20, 30] \<noteq> ([] :: int list)" and l: "length [10, 20, 30 :: int] = 3"
    by simp_all
  have two: "3 - 1 = (2::nat)" by simp
  note t = fanout_counts [of "\<lambda>i. i \<noteq> 1" "[10, 20, 30]" "[10, 20, 30]" "[7]" "[10, 20, 30]",
      unfolded l k two]
  from t n have "\<exists>r. send_daily_economic_calendar_job (\<lambda>i. i \<noteq> 1) [10, 20, 30] [7] = Some r \<and>
      calendar_attempted r = [10, 20, 30] \<and> sent_count r = 2"
    by blast
  with t n k show ?thesis by blast
qed

text \<open>
  C7 as stated fails for two of the three fan-outs. With three recipients of which the second
  fails, the daily calendar job ends with \<open>sent_count = 2\<close> and nothing else counted: it
  holds no failed count, and with no recipients it dispatches and reports nothing. The
  analysis job attempts the three sends and ends with one warning for chat 20 and no count at
  all. Only the broadcast reports both counts.
\<close>

theorem fanout_reports_without_failed_count:
  "send_daily_economic_calendar_job (\<lambda>i. i \<noteq> 1) [10, 20, 30] [7] =
     Some \<lparr>sent_count = 2, calendar_attempted = [10, 20, 30], admins_told = [7],
       job_raised = False\<rparr> \<and>
   send_daily_economic_calendar_job (\<lambda>i. i \<noteq> 1) [] [7] = None \<and>
   scheduled_analysis_job (\<lambda>i. i \<noteq> 1) True True [10, 20, 30] [7] =
     \<lparr>analysis_attempted = [10, 20, 30], analysis_warned = [20], admins_alerted = []\<rparr> \<and>
   send_broadcast_confirm_handler (\<lambda>i. i \<noteq> 1) [10, 20, 30] =
     \<lparr>sent = 2, failed = 1, broadcast_attempted = [10, 20, 30]\<rparr>"
  by (simp add: send_daily_economic_calendar_job_def scheduled_analysis_job_def
      send_broadcast_confirm_handler_def gather_send_message_def)

section \<open>The add-alert entry point\<close>

lemma length_get_user_price_alerts:
  "length (get_user_price_alerts db i True) = length (filter (\<lambda>r. user_id r = i \<and> is_active r) db)"
  by (simp add: get_user_price_alerts_def)

text \<open>
  C10. For a user on the free tier with three or more active alerts,
  \<open>start_add_alert_handler\<close> answers with the upgrade prompt and does nothing else: the
  conversation state is not set, so the creation flow does not start, and the tables are as
  they were. A user on any other tier enters the flow however many alerts they have. No path
  of the handler writes a table.
\<close>

theorem free_tier_alert_cap:
  assumes "get_user (users w) u = Some user"
  shows "(subscription_tier user = ''free'' \<and>
            3 \<le> length (filter (\<lambda>r. user_id r = uid user \<and> is_active r) (price_alerts w)) \<longrightarrow>
            start_add_alert_handler w u = Inr (w\<lparr>replies := replies w @ [ShowAlert limit_text]\<rparr>)) \<and>
         (subscription_tier user \<noteq> ''free'' \<longrightarrow>
            start_add_alert_handler w u =
              Inr (w\<lparr>fsm := (fsm w)(u := Some set_alert_asset),
                     replies := replies w @ [EditText choose_text, Answered]\<rparr>)) \<and>
         (\<forall>w'. start_add_alert_handler w u = Inr w' \<longrightarrow>
            price_alerts w' = price_alerts w \<and> users w' = users w)"
  using assms
  by (auto simp: start_add_alert_handler_def length_get_user_price_alerts)

theorem free_tier_alert_cap_witness:
  "get_user (users capped_world) 77 = Some free_user \<and> subscription_tier free_user = ''free'' \<and>
   3 \<le> length (filter (\<lambda>r. user_id r = uid free_user \<and> is_active r) (price_alerts capped_world)) \<and>
   start_add_alert_handler capped_world 77 =
     Inr (capped_world\<lparr>replies := replies capped_world @ [ShowAlert limit_text]\<rparr>)"
proof -
  have h: "get_user (users capped_world) 77 = Some free_user"
    by (simp add: capped_world_def get_user_def free_user_def)
  have c: "subscription_tier free_user = ''free''"
    "3 \<le> length (filter (\<lambda>r. user_id r = uid free_user \<and> is_active r) (price_alerts capped_world))"
    by (simp_all add: capped_world_def free_user_def gold_alert_def)
  from free_tier_alert_cap [OF h] c h show ?thesis by blast
qed

section \<open>The scheduler\<close>

lemma digits_all:
  "list_all (\<lambda>d. digit_value (digit_char d) = d \<and> digit_char d \<in> set ''0123456789'') [0..<10]"
  by code_simp

lemma digit_value_char: "d < 10 \<Longrightarrow> digit_value (digit_char d) = d"
  using digits_all unfolding list_all_iff by simp

lemma digit_char_in: "d < 10 \<Longrightarrow> digit_char d \<in> set ''0123456789''"
  using digits_all unfolding list_all_iff by simp

lemma str_nat_digits: "set (str_nat n) \<subseteq> set ''0123456789''"
proof (induction n rule: str_nat.induct)
  case (1 n)
  show ?case
  proof (cases "n < 10")
    case True
    then show ?thesis using digit_char_in [of n] by (subst str_nat.simps) simp
  next
    case False
    have "n mod 10 < 10" by simp
    from digit_char_in [OF this] "1" [OF False] False show ?thesis
      by (subst str_nat.simps) simp
  qed
qed

lemma str_nat_nonempty: "str_nat n \<noteq> []"
  by (subst str_nat.simps) simp

lemma foldl_digits_snoc:
  "foldl (\<lambda>n c. 10 * n + digit_value c) 0 (xs @ [c]) =
     10 * foldl (\<lambda>n c. 10 * n + digit_value c) 0 xs + digit_value c"
  by simp

lemma int_of_str_nat: "int_of_text (str_nat n) = int n"
proof (induction n rule: str_nat.induct)
  case (1 n)
  show ?case
  proof (cases "n < 10")
    case True
    then show ?thesis
      by (subst str_nat.simps) (simp add: int_of_text_def digit_value_char)
  next
    case False
    from "1" [OF False]
    have ih: "foldl (\<lambda>n c. 10 * n + digit_value c) 0 (str_nat (n div 10)) = n div 10"
      by (simp add: int_of_text_def)
    have "n mod 10 < 10" by simp
    from digit_value_char [OF this] False ih show ?thesis
      by (subst str_nat.simps) (simp add: int_of_text_def)
  qed
qed

lemma str_nat_inj:
  assumes "str_nat a = str_nat b"
  shows "a = b"
proof -
  have "int a = int_of_text (str_nat a)" by (simp only: int_of_str_nat)
  also have "\<dots> = int_of_text (str_nat b)" by (simp only: assms)
  also have "\<dots> = int b" by (rule int_of_str_nat)
  finally show ?thesis by simp
qed

lemma str_nat_no_minus: "hd (str_nat n) \<noteq> CHR ''-''"
proof -
  have "hd (str_nat n) \<in> set (str_nat n)" using str_nat_nonempty by simp
  with str_nat_digits [of n] have "hd (str_nat n) \<in> set ''0123456789''" by blast
  then show ?thesis by auto
qed

lemma str_int_inj: "str_int i = str_int j \<Longrightarrow> i = j"
proof -
  assume e: "str_int i = str_int j"
  show ?thesis
  proof (cases "i < 0")
    case True
    show ?thesis
    proof (cases "j < 0")
      case jn: True
      with True e have "str_nat (nat (- i)) = str_nat (nat (- j))" by (simp add: str_int_def)
      from str_nat_inj [OF this] True jn show ?thesis by simp
    next
      case False
      with True e have "CHR ''-'' # str_nat (nat (- i)) = str_nat (nat j)"
        by (simp add: str_int_def)
      then have "hd (str_nat (nat j)) = hd (CHR ''-'' # str_nat (nat (- i)))" by simp
      then have "hd (str_nat (nat j)) = CHR ''-''" by simp
      with str_nat_no_minus show ?thesis by blast
    qed
  next
    case False
    show ?thesis
    proof (cases "j < 0")
      case True
      with False e have "str_nat (nat i) = CHR ''-'' # str_nat (nat (- j))"
        by (simp add: str_int_def)
      then have "hd (str_nat (nat i)) = CHR ''-''" by simp
      with str_nat_no_minus show ?thesis by blast
    next
      case jp: False
      with False e have "str_nat (nat i) = str_nat (nat j)" by (simp add: str_int_def)
      from str_nat_inj [OF this] False jp show ?thesis by simp
    qed
  qed
qed

lemma str_int_no_sep: "CHR ''_'' \<notin> set (str_int i)"
proof -
  have "CHR ''_'' \<notin> set (str_nat n)" for n
    using str_nat_digits [of n] by auto
  then show ?thesis by (simp add: str_int_def)
qed

lemma split_at_sep:
  "c \<notin> set x \<Longrightarrow> c \<notin> set x' \<Longrightarrow> x @ c # r = x' @ c # r' \<Longrightarrow> x = x' \<and> r = r'"
proof (induction x arbitrary: x')
  case Nil
  then show ?case by (cases x') auto
next
  case (Cons a x)
  then show ?case by (cases x') auto
qed

lemma task_job_id_inj:
  assumes "task_job_id a h m = task_job_id a' h' m'"
  shows "a = a' \<and> h = h' \<and> m = m'"
proof -
  from assms have "a @ ''_'' @ str_int h @ ''_'' @ str_int m =
      a' @ ''_'' @ str_int h' @ ''_'' @ str_int m'"
    by (simp add: task_job_id_def)
  then have "rev (a @ ''_'' @ str_int h @ ''_'' @ str_int m) =
      rev (a' @ ''_'' @ str_int h' @ ''_'' @ str_int m')"
    by (rule arg_cong)
  then have e: "rev (str_int m) @ CHR ''_'' # (rev (str_int h) @ CHR ''_'' # rev a) =
      rev (str_int m') @ CHR ''_'' # (rev (str_int h') @ CHR ''_'' # rev a')"
    by simp
  have n: "CHR ''_'' \<notin> set (rev (str_int i))" for i
    using str_int_no_sep [of i] by simp
  from split_at_sep [OF n n e]
  have m: "rev (str_int m) = rev (str_int m')"
    and e2: "rev (str_int h) @ CHR ''_'' # rev a = rev (str_int h') @ CHR ''_'' # rev a'"
    by blast+
  from split_at_sep [OF n n e2] have h: "rev (str_int h) = rev (str_int h')" and a: "rev a = rev a'"
    by blast+
  from m h a show ?thesis using str_int_inj by simp
qed


lemma get_job_None: "get_job s key = None \<longleftrightarrow> key \<notin> set (map job_key (jobs s))"
  by (auto simp: get_job_def find_None_iff)

lemma add_job_keys:
  "map job_key (jobs (add_job f a key s)) =
     (if key \<in> set (map job_key (jobs s)) then map job_key (jobs s)
      else map job_key (jobs s) @ [key])"
proof (cases "key \<in> set (map job_key (jobs s))")
  case True
  have "map job_key (map (\<lambda>j. if job_key j = key then
      \<lparr>job_key = key, func = f, trigger = create_trigger s a\<rparr> else j) js) = map job_key js"
    for js :: "Job list"
    by (induction js) simp_all
  with True show ?thesis
    by (simp add: add_job_def Let_def get_job_None)
next
  case False
  then show ?thesis
    by (simp add: add_job_def Let_def get_job_None)
qed

lemma add_job_distinct:
  "distinct (map job_key (jobs s)) \<Longrightarrow> distinct (map job_key (jobs (add_job f a key s)))"
  unfolding add_job_keys by simp

lemma add_job_timezone: "scheduler_timezone (add_job f a key s) = scheduler_timezone s"
  by (simp add: add_job_def Let_def)

lemma add_job_create_trigger: "create_trigger (add_job f a key s) args = create_trigger s args"
  by (simp add: create_trigger_def add_job_timezone split: trigger_args.splits option.splits)

lemma filter_replaced:
  fixes js :: "Job list"
  assumes "distinct (map job_key js)" and "key \<in> set (map job_key js)" and "job_key job = key"
  shows "filter (\<lambda>j. job_key j = key) (map (\<lambda>j. if job_key j = key then job else j) js) = [job]"
  using assms(1,2)
proof (induction js)
  case Nil
  then show ?case by simp
next
  case (Cons j js)
  show ?case
  proof (cases "job_key j = key")
    case True
    with Cons.prems(1) have "key \<notin> set (map job_key js)" by auto
    then have "filter (\<lambda>j. job_key j = key) (map (\<lambda>j. if job_key j = key then job else j) js) = []"
      by (induction js) auto
    with True assms(3) show ?thesis by simp
  next
    case False
    with Cons.prems have "distinct (map job_key js)" "key \<in> set (map job_key js)" by auto
    from Cons.IH [OF this] False show ?thesis by simp
  qed
qed

lemma add_job_registered:
  assumes "distinct (map job_key (jobs s))"
  shows "filter (\<lambda>j. job_key j = key) (jobs (add_job f a key s)) =
     [\<lparr>job_key = key, func = f, trigger = create_trigger s a\<rparr>]"
proof (cases "key \<in> set (map job_key (jobs s))")
  case True
  from filter_replaced [OF assms True, of "\<lparr>job_key = key, func = f, trigger = create_trigger s a\<rparr>"]
    True
  show ?thesis by (simp add: add_job_def Let_def get_job_None)
next
  case False
  then have "filter (\<lambda>j. job_key j = key) (jobs s) = []"
    by (auto simp: filter_empty_conv)
  with False show ?thesis by (simp add: add_job_def Let_def get_job_None)
qed

lemma foldl_add_job_distinct:
  "distinct (map job_key (jobs s)) \<Longrightarrow>
   distinct (map job_key (jobs (foldl (\<lambda>s task. add_job (analysis_call (task_asset task))
       (cron_args (hour task) (minute task) None) (job_id task) s) s ts)))"
  by (induction ts arbitrary: s) (simp_all add: add_job_distinct)

lemma setup_scheduler_distinct:
  "distinct (map job_key (jobs s)) \<Longrightarrow> distinct (map job_key (jobs (setup_scheduler ts s)))"
  unfolding setup_scheduler_def
  by (intro add_job_distinct foldl_add_job_distinct)


lemma add_task_fresh:
  "key \<notin> set (map job_id ts) \<Longrightarrow>
   add_task key a h m ts = Inr (ts @ [\<lparr>task_pk = Suc (fold max (map task_pk ts) 0), job_id = key,
             task_asset = a, hour = h, minute = m, timezone = ''Asia/Baghdad''\<rparr>])"
  by (simp add: add_task_def)

text \<open>
  C5. Scheduling twice under one job id leaves exactly one live job for that id, and it is the
  job of the later call: on the scheduler, \<open>add_job\<close> with \<open>replace_existing=True\<close> replaces
  the stored job, ids stay unique, and \<open>setup_scheduler\<close> keeps them unique. The job id
  \<open>task_{asset}_{hour}_{minute}\<close> is a function of asset, hour and minute, and determines
  them. Through \<open>add_task_minute_handler\<close> a first call registers exactly one job under that
  id, with the asset, hour and minute given, and a second call with the same id is answered
  with "already exists" and changes nothing, so there is still one job for the id.
\<close>

theorem schedule_replaces_same_id:
  assumes "distinct (map job_key (jobs s))"
  shows "filter (\<lambda>j. job_key j = key) (jobs (add_job f2 a2 key (add_job f1 a1 key s))) =
           [\<lparr>job_key = key, func = f2, trigger = create_trigger s a2\<rparr>] \<and>
         distinct (map job_key (jobs (add_job f2 a2 key (add_job f1 a1 key s)))) \<and>
         distinct (map job_key (jobs (setup_scheduler ts s))) \<and>
         (task_job_id a h m = task_job_id a' h' m' \<longrightarrow> a = a' \<and> h = h' \<and> m = m') \<and>
         (isdigit text \<and> 0 \<le> int_of_text text \<and> int_of_text text \<le> 59 \<and>
          get_job s (task_job_id a h (int_of_text text)) = None \<and>
          task_job_id a h (int_of_text text) \<notin> set (map job_id db) \<longrightarrow>
            (\<exists>w'. add_task_minute_handler text a h \<lparr>tasks = db, scheduler = s\<rparr> =
                    Inr (w', TaskScheduled a h (int_of_text text)) \<and>
                  filter (\<lambda>j. job_key j = task_job_id a h (int_of_text text)) (jobs (scheduler w')) =
                    [\<lparr>job_key = task_job_id a h (int_of_text text), func = analysis_call a,
                      trigger = cron h (int_of_text text) (scheduler_timezone s)\<rparr>] \<and>
                  distinct (map job_key (jobs (scheduler w'))) \<and>
                  add_task_minute_handler text a h w' = Inr (w', TaskExists)))"
proof (intro conjI impI)
  have d1: "distinct (map job_key (jobs (add_job f1 a1 key s)))"
    using assms by (rule add_job_distinct)
  show "filter (\<lambda>j. job_key j = key) (jobs (add_job f2 a2 key (add_job f1 a1 key s))) =
           [\<lparr>job_key = key, func = f2, trigger = create_trigger s a2\<rparr>]"
    using add_job_registered [OF d1, of key f2 a2] by (simp add: add_job_create_trigger)
  show "distinct (map job_key (jobs (add_job f2 a2 key (add_job f1 a1 key s))))"
    using d1 by (rule add_job_distinct)
  show "distinct (map job_key (jobs (setup_scheduler ts s)))"
    using assms by (rule setup_scheduler_distinct)
next
  assume "task_job_id a h m = task_job_id a' h' m'"
  from task_job_id_inj [OF this] show "a = a'" "h = h'" "m = m'" by blast+
next
  let ?m = "int_of_text text"
  let ?key = "task_job_id a h ?m"
  let ?s' = "add_job (analysis_call a) (cron_args h ?m None) ?key s"
  let ?w' = "\<lparr>tasks = db @ [\<lparr>task_pk = Suc (fold max (map task_pk db) 0), job_id = ?key,
             task_asset = a, hour = h, minute = ?m, timezone = ''Asia/Baghdad''\<rparr>],
            scheduler = ?s'\<rparr>"
  assume h: "isdigit text \<and> 0 \<le> ?m \<and> ?m \<le> 59 \<and> get_job s ?key = None \<and>
      ?key \<notin> set (map job_id db)"
  then have first: "add_task_minute_handler text a h \<lparr>tasks = db, scheduler = s\<rparr> =
      Inr (?w', TaskScheduled a h ?m)"
    by (simp add: add_task_minute_handler_def Let_def add_task_fresh)
  have reg: "filter (\<lambda>j. job_key j = ?key) (jobs ?s') =
      [\<lparr>job_key = ?key, func = analysis_call a, trigger = cron h ?m (scheduler_timezone s)\<rparr>]"
    using add_job_registered [OF assms, of ?key "analysis_call a" "cron_args h ?m None"]
    by (simp add: create_trigger_def)
  have dist: "distinct (map job_key (jobs ?s'))"
    using assms by (rule add_job_distinct)
  have "?key \<in> set (map job_key (jobs ?s'))"
    unfolding add_job_keys by simp
  then have "get_job ?s' ?key \<noteq> None"
    unfolding get_job_None by simp
  with h have again: "add_task_minute_handler text a h ?w' = Inr (?w', TaskExists)"
    by (simp add: add_task_minute_handler_def Let_def)
  from first reg dist again
  show "\<exists>w'. add_task_minute_handler text a h \<lparr>tasks = db, scheduler = s\<rparr> =
                    Inr (w', TaskScheduled a h (int_of_text text)) \<and>
                  filter (\<lambda>j. job_key j = task_job_id a h (int_of_text text)) (jobs (scheduler w')) =
                    [\<lparr>job_key = task_job_id a h (int_of_text text), func = analysis_call a,
                      trigger = cron h (int_of_text text) (scheduler_timezone s)\<rparr>] \<and>
                  distinct (map job_key (jobs (scheduler w'))) \<and>
                  add_task_minute_handler text a h w' = Inr (w', TaskExists)"
    by (intro exI [of _ ?w']) simp
qed

theorem schedule_replaces_same_id_witness:
  "distinct (map job_key (jobs utc_scheduler)) \<and>
   filter (\<lambda>j. job_key j = ''task_XAUUSD_8_30'')
     (jobs (add_job (analysis_call ''EURUSD'') (cron_args 9 15 None) ''task_XAUUSD_8_30''
        (add_job (analysis_call ''XAUUSD'') (cron_args 8 30 None) ''task_XAUUSD_8_30''
           utc_scheduler))) =
     [\<lparr>job_key = ''task_XAUUSD_8_30'', func = analysis_call ''EURUSD'',
       trigger = cron 9 15 ''UTC''\<rparr>] \<and>
   isdigit ''30'' \<and> int_of_text ''30'' = 30 \<and>
   task_job_id ''XAUUSD'' 8 30 = ''task_XAUUSD_8_30'' \<and>
   get_job utc_scheduler ''task_XAUUSD_8_30'' = None \<and>
   (\<exists>w'. add_task_minute_handler ''30'' ''XAUUSD'' 8 \<lparr>tasks = [], scheduler = utc_scheduler\<rparr> =
           Inr (w', TaskScheduled ''XAUUSD'' 8 30) \<and>
         filter (\<lambda>j. job_key j = ''task_XAUUSD_8_30'') (jobs (scheduler w')) =
           [\<lparr>job_key = ''task_XAUUSD_8_30'', func = analysis_call ''XAUUSD'',
             trigger = cron 8 30 ''UTC''\<rparr>] \<and>
         add_task_minute_handler ''30'' ''XAUUSD'' 8 w' = Inr (w', TaskExists))"
proof -
  have d: "distinct (map job_key (jobs utc_scheduler))" by (simp add: utc_scheduler_def)
  have t: "isdigit ''30''" "int_of_text ''30'' = 30"
    by (simp_all add: isdigit_def int_of_text_def digit_value_def)
  have k: "task_job_id ''XAUUSD'' 8 30 = ''task_XAUUSD_8_30''"
    by (simp add: task_job_id_def str_int_def str_nat.simps digit_char_def)
  have g: "get_job utc_scheduler ''task_XAUUSD_8_30'' = None"
    by (simp add: get_job_def utc_scheduler_def)
  have z: "create_trigger utc_scheduler (cron_args 9 15 None) = cron 9 15 ''UTC''"
    "scheduler_timezone utc_scheduler = ''UTC''"
    by (simp_all add: create_trigger_def utc_scheduler_def)
  have e: "''task_XAUUSD_8_30'' \<notin> set (map job_id ([] :: ScheduledTask list))"
    "(0::int) \<le> 30" "(30::int) \<le> 59"
    by simp_all
  note inst = schedule_replaces_same_id [OF d, of "''task_XAUUSD_8_30''"
      "analysis_call ''EURUSD''" "cron_args 9 15 None" "analysis_call ''XAUUSD''" "cron_args 8 30 None"
      "[]" "''XAUUSD''" 8 30 "''XAUUSD''" 8 30 "''30''" "[]", unfolded t(2) k z]
  from inst have first: "filter (\<lambda>j. job_key j = ''task_XAUUSD_8_30'')
     (jobs (add_job (analysis_call ''EURUSD'') (cron_args 9 15 None) ''task_XAUUSD_8_30''
        (add_job (analysis_call ''XAUUSD'') (cron_args 8 30 None) ''task_XAUUSD_8_30''
           utc_scheduler))) =
     [\<lparr>job_key = ''task_XAUUSD_8_30'', func = analysis_call ''EURUSD'',
       trigger = cron 9 15 ''UTC''\<rparr>]"
    by (rule conjunct1)
  from inst t(1) g e have "\<exists>w'. add_task_minute_handler ''30'' ''XAUUSD'' 8
             \<lparr>tasks = [], scheduler = utc_scheduler\<rparr> =
           Inr (w', TaskScheduled ''XAUUSD'' 8 30) \<and>
         filter (\<lambda>j. job_key j = ''task_XAUUSD_8_30'') (jobs (scheduler w')) =
           [\<lparr>job_key = ''task_XAUUSD_8_30'', func = analysis_call ''XAUUSD'',
             trigger = cron 8 30 ''UTC''\<rparr>] \<and>
         add_task_minute_handler ''30'' ''XAUUSD'' 8 w' = Inr (w', TaskExists)"
    by blast
  with d first t k g show ?thesis by (intro conjI)
qed

text \<open>
  C4. The claim is that the cron trigger of every persisted task is registered with the
  timezone stored for the task. \<open>setup_scheduler\<close> gives the analysis jobs no timezone, so
  their triggers take the timezone of the scheduler, which is that of the host; the daily
  calendar job, registered by the same function, is given Asia/Baghdad. Here the task stored
  for 02:00 Asia/Baghdad is registered, on a host in UTC, with a trigger for 02:00 UTC.
\<close>

theorem analysis_job_registered_in_host_timezone:
  "get_job (setup_scheduler [baghdad_task] utc_scheduler) (job_id baghdad_task) =
     Some \<lparr>job_key = ''task_XAUUSD_2_0'', func = analysis_call ''XAUUSD'',
       trigger = cron 2 0 ''UTC''\<rparr> \<and>
   timezone baghdad_task = ''Asia/Baghdad'' \<and>
   get_job (setup_scheduler [baghdad_task] utc_scheduler) ''daily_calendar_sender'' =
     Some \<lparr>job_key = ''daily_calendar_sender'', func = calendar_call,
       trigger = cron 2 0 ''Asia/Baghdad''\<rparr>"
  by (simp add: setup_scheduler_def add_job_def get_job_def create_trigger_def baghdad_task_def
      utc_scheduler_def)

section \<open>The economic calendar\<close>
















lemma none_not_acceptable: "''None'' \<notin> set acceptable_impacts"
  by (simp add: acceptable_impacts_def)

lemma row_event_Some:
  "row_event y today r = Some e \<longleftrightarrow>
     (\<exists>d i p f a. date_div r = Some d \<and> 6 \<le> length (tds r) \<and> impact_div r = Some i \<and>
        previous_td r = Some p \<and> forecast_td r = Some f \<and> actual_td r = Some a \<and>
        strip (tds r ! 3) \<in> set target_currencies \<and> strip i \<in> set acceptable_impacts \<and>
        parse_event_datetime y (strip d) = Some (datetime_obj e) \<and>
        (date_of (datetime_obj e) = today \<or> date_of (datetime_obj e) = next_day today) \<and>
        e = \<lparr>datetime_obj = datetime_obj e, currency = strip (tds r ! 3),
              event = strip (tds r ! 4), impact = strip i,
              previous = or_else (strip p) ''N/A'', forecast = or_else (strip f) ''N/A'',
              actual = or_else (strip a) ''Not released''\<rparr>)"
  (is "?L \<longleftrightarrow> ?R")
proof
  assume l: ?L
  then obtain d where d: "date_div r = Some d"
    by (cases "date_div r") (simp_all add: row_event_def)
  from l d have n: "6 \<le> length (tds r)"
    by (simp add: row_event_def split: if_splits)
  from l d n have c: "strip (tds r ! 3) \<in> set target_currencies"
    by (simp add: row_event_def Let_def split: if_splits)
  from l d n obtain i where i: "impact_div r = Some i" and ia: "strip i \<in> set acceptable_impacts"
    by (cases "impact_div r") (simp_all add: row_event_def Let_def none_not_acceptable split: if_splits)
  from l d n c i ia obtain dt where dt: "parse_event_datetime y (strip d) = Some dt"
    by (cases "parse_event_datetime y (strip d)") (simp_all add: row_event_def Let_def)
  from l d n c i ia dt have day: "date_of dt = today \<or> date_of dt = next_day today"
    by (simp add: row_event_def Let_def split: if_splits)
  from l d n c i ia dt day obtain p f a where
    cells: "previous_td r = Some p" "forecast_td r = Some f" "actual_td r = Some a"
    by (cases "previous_td r"; cases "forecast_td r"; cases "actual_td r")
       (simp_all add: row_event_def Let_def)
  from l d n c i ia dt day cells
  have e: "e = \<lparr>datetime_obj = dt, currency = strip (tds r ! 3),
              event = strip (tds r ! 4), impact = strip i,
              previous = or_else (strip p) ''N/A'', forecast = or_else (strip f) ''N/A'',
              actual = or_else (strip a) ''Not released''\<rparr>"
    by (simp add: row_event_def Let_def)
  then have o: "datetime_obj e = dt" by simp
  from d n i cells c ia dt day e show ?R
    unfolding o by blast
next
  assume ?R
  then obtain d i p f a where h: "date_div r = Some d" "6 \<le> length (tds r)"
    "impact_div r = Some i" "previous_td r = Some p" "forecast_td r = Some f"
    "actual_td r = Some a" "strip (tds r ! 3) \<in> set target_currencies"
    "strip i \<in> set acceptable_impacts"
    "parse_event_datetime y (strip d) = Some (datetime_obj e)"
    "date_of (datetime_obj e) = today \<or> date_of (datetime_obj e) = next_day today"
    and e: "e = \<lparr>datetime_obj = datetime_obj e, currency = strip (tds r ! 3),
              event = strip (tds r ! 4), impact = strip i,
              previous = or_else (strip p) ''N/A'', forecast = or_else (strip f) ''N/A'',
              actual = or_else (strip a) ''Not released''\<rparr>"
    by blast
  from h have "row_event y today r = Some \<lparr>datetime_obj = datetime_obj e,
      currency = strip (tds r ! 3), event = strip (tds r ! 4), impact = strip i,
      previous = or_else (strip p) ''N/A'', forecast = or_else (strip f) ''N/A'',
      actual = or_else (strip a) ''Not released''\<rparr>"
    by (simp add: row_event_def Let_def)
  with e show ?L by simp
qed

lemma map_filter_member:
  "e \<in> set (List.map_filter f xs) \<longleftrightarrow> (\<exists>x \<in> set xs. f x = Some e)"
  by (induction xs) (auto simp: List.map_filter_simps split: option.splits)

text \<open>
  C9. The result of \<open>_scrape_calendar\<close> is sorted ascending by the datetime of the events,
  it holds exactly the events of the rows that yield one, one event for each such row, and
  a row yields an event exactly when all its cells are found, its currency is a target
  currency, its impact is an acceptable impact, and its date text parses to a Baghdad
  datetime that falls on today or on the day after; the event carries that datetime and
  the texts of the row.
\<close>

theorem calendar_output_filtered_sorted:
  "sorted (map (\<lambda>e. dt_key (datetime_obj e)) (scrape_calendar y today (Some rows))) \<and>
   (e \<in> set (scrape_calendar y today (Some rows)) \<longleftrightarrow>
      (\<exists>r \<in> set rows. row_event y today r = Some e)) \<and>
   length (scrape_calendar y today (Some rows)) =
     length (filter (\<lambda>r. row_event y today r \<noteq> None) rows) \<and>
   (row_event y today r = Some e \<longleftrightarrow>
     (\<exists>d i p f a. date_div r = Some d \<and> 6 \<le> length (tds r) \<and> impact_div r = Some i \<and>
        previous_td r = Some p \<and> forecast_td r = Some f \<and> actual_td r = Some a \<and>
        strip (tds r ! 3) \<in> set target_currencies \<and> strip i \<in> set acceptable_impacts \<and>
        parse_event_datetime y (strip d) = Some (datetime_obj e) \<and>
        (date_of (datetime_obj e) = today \<or> date_of (datetime_obj e) = next_day today) \<and>
        e = \<lparr>datetime_obj = datetime_obj e, currency = strip (tds r ! 3),
              event = strip (tds r ! 4), impact = strip i,
              previous = or_else (strip p) ''N/A'', forecast = or_else (strip f) ''N/A'',
              actual = or_else (strip a) ''Not released''\<rparr>))"
proof (intro conjI)
  show "sorted (map (\<lambda>e. dt_key (datetime_obj e)) (scrape_calendar y today (Some rows)))"
    by (simp add: scrape_calendar_def)
  show "e \<in> set (scrape_calendar y today (Some rows)) \<longleftrightarrow>
      (\<exists>r \<in> set rows. row_event y today r = Some e)"
    by (simp add: scrape_calendar_def map_filter_member)
  show "length (scrape_calendar y today (Some rows)) =
     length (filter (\<lambda>r. row_event y today r \<noteq> None) rows)"
    by (simp add: scrape_calendar_def List.map_filter_def)
  show "row_event y today r = Some e \<longleftrightarrow>
     (\<exists>d i p f a. date_div r = Some d \<and> 6 \<le> length (tds r) \<and> impact_div r = Some i \<and>
        previous_td r = Some p \<and> forecast_td r = Some f \<and> actual_td r = Some a \<and>
        strip (tds r ! 3) \<in> set target_currencies \<and> strip i \<in> set acceptable_impacts \<and>
        parse_event_datetime y (strip d) = Some (datetime_obj e) \<and>
        (date_of (datetime_obj e) = today \<or> date_of (datetime_obj e) = next_day today) \<and>
        e = \<lparr>datetime_obj = datetime_obj e, currency = strip (tds r ! 3),
              event = strip (tds r ! 4), impact = strip i,
              previous = or_else (strip p) ''N/A'', forecast = or_else (strip f) ''N/A'',
              actual = or_else (strip a) ''Not released''\<rparr>)"
    by (rule row_event_Some)
qed

theorem calendar_output_filtered_sorted_witness:
  "payrolls_row \<in> set calendar_page \<and>
   row_event 2026 (2026, 1, 4) payrolls_row = Some payrolls_event \<and>
   payrolls_event \<in> set (scrape_calendar 2026 (2026, 1, 4) (Some calendar_page)) \<and>
   length (scrape_calendar 2026 (2026, 1, 4) (Some calendar_page)) = 2 \<and>
   sorted (map (\<lambda>e. dt_key (datetime_obj e))
     (scrape_calendar 2026 (2026, 1, 4) (Some calendar_page)))"
proof -
  have m: "payrolls_row \<in> set calendar_page" by (simp add: calendar_page_def)
  have re: "row_event 2026 (2026, 1, 4) payrolls_row = Some payrolls_event" by code_simp
  have len: "length (filter (\<lambda>r. row_event 2026 (2026, 1, 4) r \<noteq> None) calendar_page) = 2"
    by code_simp
  note t = calendar_output_filtered_sorted [of 2026 "(2026, 1, 4)" calendar_page payrolls_event
      payrolls_row]
  from t have s: "sorted (map (\<lambda>e. dt_key (datetime_obj e))
     (scrape_calendar 2026 (2026, 1, 4) (Some calendar_page)))"
    by (rule conjunct1)
  from t m re have i: "payrolls_event \<in> set (scrape_calendar 2026 (2026, 1, 4) (Some calendar_page))"
    by blast
  from t len have l: "length (scrape_calendar 2026 (2026, 1, 4) (Some calendar_page)) = 2"
    by simp
  from m re i l s show ?thesis by (intro conjI)
qed

end
